theory Spec2Isabelle
  imports Main "HOL-Library.AList"
begin

section \<open>JavaScript values\<close>

text \<open>
  The two classes of the repository, \<^verbatim>\<open>InitGroup\<close> and \<^verbatim>\<open>Extension\<close>, are
  written in JavaScript. Their behaviour depends on a small part of the language: the
  \<^verbatim>\<open>typeof\<close> operator, truthiness, property reads and writes on objects, the order in
  which \<^verbatim>\<open>for ... in\<close> visits property names, and function calls with an explicit
  receiver. This section models that part.

  Function objects and plain objects have an identity (a reference). An array or an object
  literal that the code only reads is given by its contents; an object literal lists each
  key once. The closure that \<^verbatim>\<open>addHandledMethod\<close> creates is given by the three
  variables it captures, so two closures that capture the same values are not told apart.
\<close>

type_synonym ref = nat

datatype val =
    Undefined
  | Null
  | Bool bool
  | Num int                          \<comment> \<open>integer-valued numbers\<close>
  | Str string
  | Func ref                         \<comment> \<open>a function object whose body lies outside the repository\<close>
  | Fwd ref val val                  \<comment> \<open>the closure of \<^verbatim>\<open>addHandledMethod\<close>:
                                         \<^verbatim>\<open>ext\<close>, \<^verbatim>\<open>srcName\<close>, \<^verbatim>\<open>applyThis\<close>\<close>
  | Object ref                       \<comment> \<open>an object of the heap\<close>
  | Arr "val list"                   \<comment> \<open>a dense array\<close>
  | Rec "(string \<times> val) list"        \<comment> \<open>an object literal, properties in creation order\<close>

datatype jstype = T_undefined | T_object | T_boolean | T_number | T_string | T_function

text \<open>\<^verbatim>\<open>typeof null\<close> is \<^verbatim>\<open>'object'\<close>.\<close>

fun typeof :: "val \<Rightarrow> jstype" where
  "typeof Undefined = T_undefined"
| "typeof Null = T_object"
| "typeof (Bool b) = T_boolean"
| "typeof (Num n) = T_number"
| "typeof (Str s) = T_string"
| "typeof (Func r) = T_function"
| "typeof (Fwd e s t) = T_function"
| "typeof (Object r) = T_object"
| "typeof (Arr vs) = T_object"
| "typeof (Rec ps) = T_object"

text \<open>
  The constants \<^verbatim>\<open>F\<close>, \<^verbatim>\<open>O\<close>, \<^verbatim>\<open>S\<close> and \<^verbatim>\<open>B\<close> that both source files take from
  \<^verbatim>\<open>core.types\<close> of the library \<^verbatim>\<open>@lumjs/core\<close> are the \<^verbatim>\<open>typeof\<close> names
  \<^verbatim>\<open>'function'\<close>, \<^verbatim>\<open>'object'\<close>, \<^verbatim>\<open>'string'\<close> and \<^verbatim>\<open>'boolean'\<close>.
\<close>

abbreviation (input) F :: jstype where "F \<equiv> T_function"
abbreviation (input) S :: jstype where "S \<equiv> T_string"
abbreviation (input) B :: jstype where "B \<equiv> T_boolean"
abbreviation (input) O_type :: jstype where "O_type \<equiv> T_object"

text \<open>The values that count as false in a condition.\<close>

fun truthy :: "val \<Rightarrow> bool" where
  "truthy Undefined = False"
| "truthy Null = False"
| "truthy (Bool b) = b"
| "truthy (Num n) = (n \<noteq> 0)"
| "truthy (Str s) = (s \<noteq> [])"
| "truthy v = True"

subsection \<open>Property keys\<close>

text \<open>
  A property key is a string. A value used as a key, or concatenated with a string, is
  converted first. The conversion of the primitive values and of arrays is the one of the
  language; the text of an object or of a function depends on code outside the repository,
  and a fixed text stands for it.
\<close>

definition digit_char :: "nat \<Rightarrow> char" where
  "digit_char n = ''0123456789'' ! (n mod 10)"

function dec :: "nat \<Rightarrow> string" where
  "dec n = (if n < 10 then [digit_char n] else dec (n div 10) @ [digit_char n])"
  by pat_completeness auto
termination
  by (relation "measure id") auto

declare dec.simps [simp del]

fun join_comma :: "string list \<Rightarrow> string" where
  "join_comma [] = []"
| "join_comma [s] = s"
| "join_comma (s # t # ss) = s @ '','' @ join_comma (t # ss)"

fun to_str :: "val \<Rightarrow> string" where
  "to_str Undefined = ''undefined''"
| "to_str Null = ''null''"
| "to_str (Bool b) = (if b then ''true'' else ''false'')"
| "to_str (Num n) = (if n < 0 then ''-'' @ dec (nat (- n)) else dec (nat n))"
| "to_str (Str s) = s"
| "to_str (Func r) = ''function () { [native code] }''"
| "to_str (Fwd e s t) = ''function () { ext[srcName].apply(applyThis, arguments); }''"
| "to_str (Object r) = ''[object Object]''"
| "to_str (Arr vs) =
     join_comma (map (\<lambda>v. if v = Undefined \<or> v = Null then [] else to_str v) vs)"
| "to_str (Rec ps) = ''[object Object]''"

subsection \<open>Objects\<close>

text \<open>
  An object has its own properties, in creation order, and the properties it sees through
  its prototype chain. A read looks at the own properties first; a write always makes or
  changes an own property, keeping the position of a key that is already there. Only plain
  data properties are modelled (no accessors, no frozen objects), and the inherited
  properties are not enumerable, as the methods of a class and of
  \<^verbatim>\<open>Object.prototype\<close> are.
\<close>

record jsobj =
  own :: "(string \<times> val) list"
  inherited :: "(string \<times> val) list"

definition get_prop :: "jsobj \<Rightarrow> string \<Rightarrow> val" where
  "get_prop obj k =
     (case map_of (own obj) k of
        Some v \<Rightarrow> v
      | None \<Rightarrow> (case map_of (inherited obj) k of Some v \<Rightarrow> v | None \<Rightarrow> Undefined))"

definition set_prop :: "jsobj \<Rightarrow> string \<Rightarrow> val \<Rightarrow> jsobj" where
  "set_prop obj k v = obj\<lparr>own := AList.update k v (own obj)\<rparr>"

text \<open>
  \<^verbatim>\<open>for (k in obj)\<close> visits the own keys that are array indices first, in ascending
  numeric order, and then the other keys in creation order. An array index is the decimal
  text, without a leading zero, of an integer below \<open>2\<^sup>3\<^sup>2 - 1\<close>.
\<close>

definition digit_val :: "char \<Rightarrow> nat option" where
  "digit_val = map_of
     [(CHR ''0'', 0), (CHR ''1'', 1), (CHR ''2'', 2), (CHR ''3'', 3), (CHR ''4'', 4),
      (CHR ''5'', 5), (CHR ''6'', 6), (CHR ''7'', 7), (CHR ''8'', 8), (CHR ''9'', 9)]"

fun dec_value :: "nat \<Rightarrow> string \<Rightarrow> nat option" where
  "dec_value acc [] = Some acc"
| "dec_value acc (c # cs) =
     (case digit_val c of None \<Rightarrow> None | Some k \<Rightarrow> dec_value (10 * acc + k) cs)"

definition array_index :: "string \<Rightarrow> nat option" where
  "array_index s =
     (case s of
        [] \<Rightarrow> None
      | c # cs \<Rightarrow>
          if c = CHR ''0'' \<and> cs \<noteq> [] then None
          else (case dec_value 0 s of
                  None \<Rightarrow> None
                | Some n \<Rightarrow> if n < 4294967295 then Some n else None))"

definition index_of :: "string \<Rightarrow> nat" where
  "index_of k = (case array_index k of Some i \<Rightarrow> i | None \<Rightarrow> 0)"

definition for_in_order :: "string list \<Rightarrow> string list" where
  "for_in_order ks =
     sort_key index_of (filter (\<lambda>k. array_index k \<noteq> None) ks)
       @ filter (\<lambda>k. array_index k = None) ks"

definition for_in_keys :: "jsobj \<Rightarrow> string list" where
  "for_in_keys obj = for_in_order (map fst (own obj))"

subsection \<open>The world: heap, function objects, trace and console\<close>

text \<open>
  The objects that the code mutates through a reference live in a heap. \<^verbatim>\<open>InitGroup\<close>
  keeps its bookkeeping in two properties of the registered function object itself,
  \<^verbatim>\<open>_run_init\<close> and \<^verbatim>\<open>_this_api\<close>; they are stored per function value, so that one
  function registered under two names, or in two groups, shares them. A property that was
  never written reads as \<^verbatim>\<open>undefined\<close>.

  The trace lists every call of a function object whose body lies outside the repository:
  the function, the receiver and the arguments. The console lists the argument lists of
  the calls of \<^verbatim>\<open>console.error\<close>.
\<close>

type_synonym call = "ref \<times> val \<times> val list"

record world =
  heap :: "ref \<Rightarrow> jsobj"
  run_init :: "val \<Rightarrow> val"
  this_api :: "val \<Rightarrow> val"
  calls :: "call list"
  console :: "val list list"

datatype exn =
    Error string       \<comment> \<open>\<^verbatim>\<open>new Error(message)\<close>\<close>
  | TypeError
  | RangeError         \<comment> \<open>the call stack is exhausted\<close>
  | Thrown val         \<comment> \<open>a value thrown by a function outside the repository\<close>

datatype outcome = Return val | Throw exn

text \<open>
  The bodies of the registered initializers, of the \<^verbatim>\<open>setup\<close> hooks and of the methods of
  an extension are not part of the repository. A behaviour gives, for a function object, a
  receiver and an argument list, the outcome of the call. The call is recorded in the
  trace; the body is taken not to change the objects modelled here.
\<close>

type_synonym behaviour = "ref \<Rightarrow> val \<Rightarrow> val list \<Rightarrow> outcome"

definition console_error :: "val list \<Rightarrow> world \<Rightarrow> world" where
  "console_error args w = w\<lparr>console := console w @ [args]\<rparr>"

text \<open>
  Calling a value with a receiver and arguments. The first argument bounds the depth of the
  call stack. The closure installed by \<^verbatim>\<open>addHandledMethod\<close> is
  \<^verbatim>\<open>function () { ext[srcName].apply(applyThis, arguments); }\<close>: it reads the method
  of the extension when it is called, ignores its own receiver and has no \<^verbatim>\<open>return\<close>
  statement. A value that is not a function cannot be called.
\<close>

fun invoke :: "nat \<Rightarrow> behaviour \<Rightarrow> val \<Rightarrow> val \<Rightarrow> val list \<Rightarrow> world \<Rightarrow> outcome \<times> world" where
  "invoke 0 beh f recv args w = (Throw RangeError, w)"
| "invoke (Suc d) beh (Func r) recv args w =
     (beh r recv args, w\<lparr>calls := calls w @ [(r, recv, args)]\<rparr>)"
| "invoke (Suc d) beh (Fwd ext srcName applyThis) recv args w =
     (case invoke d beh (get_prop (heap w ext) (to_str srcName)) applyThis args w of
        (Throw e, w') \<Rightarrow> (Throw e, w')
      | (Return v, w') \<Rightarrow> (Return Undefined, w'))"
| "invoke (Suc d) beh f recv args w = (Throw TypeError, w)"

section \<open>InitGroup\<close>

record InitGroup =
  api :: val
  name :: val
  methods :: jsobj

text \<open>
  \<^verbatim>\<open>constructor(name, api=null)\<close>. The default applies when the argument is
  \<^verbatim>\<open>undefined\<close>. \<^verbatim>\<open>this.methods = {}\<close> is an empty object; what it inherits from
  \<^verbatim>\<open>Object.prototype\<close> is a parameter.
\<close>

definition InitGroup_constructor :: "(string \<times> val) list \<Rightarrow> val \<Rightarrow> val \<Rightarrow> InitGroup" where
  "InitGroup_constructor object_prototype nm api_arg =
     \<lparr>api = (if api_arg = Undefined then Null else api_arg),
      name = nm,
      methods = \<lparr>own = [], inherited = object_prototype\<rparr>\<rparr>"

text \<open>
  \<^verbatim>\<open>add(name, method, apiIsThis=false)\<close>. The group is passed with its own reference
  \<open>this\<close>; the result is the returned value, the group and the world.
\<close>

definition add :: "val \<Rightarrow> InitGroup \<Rightarrow> val \<Rightarrow> val \<Rightarrow> val \<Rightarrow> world \<Rightarrow> val \<times> InitGroup \<times> world" where
  "add this g nm method apiIsThis_arg w =
     (let apiIsThis = (if apiIsThis_arg = Undefined then Bool False else apiIsThis_arg) in
      if typeof nm = S \<and> typeof method = F then
        if get_prop (methods g) (to_str nm) = Undefined then
          (Bool True,
           g\<lparr>methods := set_prop (methods g) (to_str nm) method\<rparr>,
           w\<lparr>run_init := (run_init w)(method := Bool False),
             this_api := (this_api w)(method := apiIsThis)\<rparr>)
        else
          (Bool False, g,
           console_error [Str ''cannot overwrite init method'', nm, method, this] w)
      else
        (Bool False, g, console_error [Str ''invalid init method'', nm, method, this] w))"

text \<open>\<^verbatim>\<open>need(name, conf)\<close>: run a named init script of the group.\<close>

definition need :: "nat \<Rightarrow> behaviour \<Rightarrow> val \<Rightarrow> InitGroup \<Rightarrow> val \<Rightarrow> val \<Rightarrow> world \<Rightarrow> outcome \<times> world" where
  "need d beh this g nm conf w =
     (let meth = get_prop (methods g) (to_str nm) in
      if typeof meth \<noteq> F then
        (Return (Bool False),
         console_error [Str ''invalid init method requested'', nm, this, conf] w)
      else if truthy (run_init w meth) then
        (Return (Bool True), w)
      else
        let wantThis = (if truthy (this_api w meth) \<and> truthy (api g) then api g else this) in
        (case invoke d beh meth wantThis [conf] w of
           (Throw e, w') \<Rightarrow> (Throw e, w')
         | (Return ret, w') \<Rightarrow> (Return ret, w'\<lparr>run_init := (run_init w')(meth := Bool True)\<rparr>)))"

text \<open>
  \<^verbatim>\<open>run(conf)\<close>: \<^verbatim>\<open>for (const name in this.methods) this.need(name, conf)\<close>. There is
  no \<^verbatim>\<open>try\<close> in the loop, so an exception of \<^verbatim>\<open>need\<close> ends it.
\<close>

fun run_loop :: "nat \<Rightarrow> behaviour \<Rightarrow> val \<Rightarrow> InitGroup \<Rightarrow> val \<Rightarrow> string list \<Rightarrow> world \<Rightarrow> outcome \<times> world" where
  "run_loop d beh this g conf [] w = (Return Undefined, w)"
| "run_loop d beh this g conf (k # ks) w =
     (case need d beh this g (Str k) conf w of
        (Throw e, w') \<Rightarrow> (Throw e, w')
      | (Return v, w') \<Rightarrow> run_loop d beh this g conf ks w')"

definition run :: "nat \<Rightarrow> behaviour \<Rightarrow> val \<Rightarrow> InitGroup \<Rightarrow> val \<Rightarrow> world \<Rightarrow> outcome \<times> world" where
  "run d beh this g conf w = run_loop d beh this g conf (for_in_keys (methods g)) w"

section \<open>Extension\<close>

text \<open>
  An extension is an object of the heap: its own properties (\<^verbatim>\<open>parent\<close>, once the
  constructor has set it) and, through its prototype chain, the methods of the concrete
  class (\<^verbatim>\<open>setup\<close> and the methods to be forwarded). The class \<^verbatim>\<open>Model\<close> is required
  from \<^verbatim>\<open>./model\<close>, a file that is not among the sources, so the test
  \<^verbatim>\<open>apiInstance instanceof Model\<close> takes the set of model instances as a parameter;
  only objects of the heap can be instances.
\<close>

definition instanceof_Model :: "(ref \<Rightarrow> bool) \<Rightarrow> val \<Rightarrow> bool" where
  "instanceof_Model is_model v = (case v of Object r \<Rightarrow> is_model r | _ \<Rightarrow> False)"

text \<open>
  \<^verbatim>\<open>constructor(apiInstance)\<close>, run on the fresh object \<open>this\<close> that \<^verbatim>\<open>new\<close> has
  allocated; \<^verbatim>\<open>new\<close> returns that object.
\<close>

definition Extension_constructor ::
  "nat \<Rightarrow> behaviour \<Rightarrow> (ref \<Rightarrow> bool) \<Rightarrow> ref \<Rightarrow> val \<Rightarrow> world \<Rightarrow> outcome \<times> world" where
  "Extension_constructor d beh is_model this apiInstance w =
     (if \<not> instanceof_Model is_model apiInstance then
        (Throw (Error ''Extension must be passed it's parent Model''), w)
      else
        let w1 = w\<lparr>heap := (heap w)(this := set_prop (heap w this) ''parent'' apiInstance)\<rparr> in
        if typeof (get_prop (heap w1 this) ''setup'') = F then
          (case invoke d beh (get_prop (heap w1 this) ''setup'') (Object this) [apiInstance] w1 of
             (Throw e, w2) \<Rightarrow> (Throw e, w2)
           | (Return v, w2) \<Rightarrow> (Return (Object this), w2))
        else (Return (Object this), w1))"

text \<open>
  \<^verbatim>\<open>addHandledMethod(srcName, destName, modelIsThis, canReplace)\<close>; an omitted argument
  is \<^verbatim>\<open>undefined\<close>. The constructor leaves a model instance, an object of the heap, in
  \<^verbatim>\<open>this.parent\<close>; were it replaced by \<^verbatim>\<open>undefined\<close> or \<^verbatim>\<open>null\<close>, the access
  \<^verbatim>\<open>this.parent[destName]\<close> would raise a \<^verbatim>\<open>TypeError\<close>, and every parent that is
  not an object of the heap is treated so.
\<close>

definition addHandledMethod ::
  "ref \<Rightarrow> val \<Rightarrow> val \<Rightarrow> val \<Rightarrow> val \<Rightarrow> world \<Rightarrow> outcome \<times> world" where
  "addHandledMethod this srcName destName_arg modelIsThis canReplace w =
     (let destName = (if truthy destName_arg then destName_arg else srcName) in
      if typeof (get_prop (heap w this) (to_str srcName)) = F then
        (case get_prop (heap w this) ''parent'' of
           Object p \<Rightarrow>
             if truthy canReplace \<or> get_prop (heap w p) (to_str destName) = Undefined then
               let applyThis = (if truthy modelIsThis then Object p else Object this) in
               (Return Undefined,
                w\<lparr>heap := (heap w)(p := set_prop (heap w p) (to_str destName)
                                          (Fwd this srcName applyThis))\<rparr>)
             else
               (Throw (Error (to_str destName @ '' was already defined in the Model'')), w)
         | _ \<Rightarrow> (Throw TypeError, w))
      else
        (Throw (Error (to_str srcName @ '' method not found in the Extension'')), w))"

text \<open>
  \<^verbatim>\<open>addHandledMethods(methodsToAdd)\<close>. Both loops call \<^verbatim>\<open>addHandledMethod\<close> with no
  \<^verbatim>\<open>try\<close> around it, so the first exception ends the loop and what was installed
  before stays. Reading a property of an object literal or of a heap object gives its
  value; the three option names are not properties of arrays. Reading a property of
  \<^verbatim>\<open>null\<close> raises a \<^verbatim>\<open>TypeError\<close>, and \<^verbatim>\<open>for ... in\<close> over \<^verbatim>\<open>null\<close> visits
  nothing.
\<close>

definition member :: "world \<Rightarrow> val \<Rightarrow> string \<Rightarrow> val" where
  "member w v k =
     (case v of
        Rec ps \<Rightarrow> (case map_of ps k of Some x \<Rightarrow> x | None \<Rightarrow> Undefined)
      | Object r \<Rightarrow> get_prop (heap w r) k
      | _ \<Rightarrow> Undefined)"

definition enum_keys :: "world \<Rightarrow> val \<Rightarrow> string list" where
  "enum_keys w v =
     (case v of
        Rec ps \<Rightarrow> for_in_order (map fst ps)
      | Object r \<Rightarrow> for_in_keys (heap w r)
      | _ \<Rightarrow> [])"

fun array_loop :: "ref \<Rightarrow> val list \<Rightarrow> world \<Rightarrow> outcome \<times> world" where
  "array_loop this [] w = (Return Undefined, w)"
| "array_loop this (methodName # rest) w =
     (case addHandledMethod this methodName Undefined Undefined Undefined w of
        (Throw e, w') \<Rightarrow> (Throw e, w')
      | (Return v, w') \<Rightarrow> array_loop this rest w')"

definition handle_spec :: "ref \<Rightarrow> string \<Rightarrow> val \<Rightarrow> world \<Rightarrow> outcome \<times> world" where
  "handle_spec this srcName methSpec w =
     (if typeof methSpec = S then
        addHandledMethod this (Str srcName) methSpec Undefined Undefined w
      else if typeof methSpec = B then
        addHandledMethod this (Str srcName) Null methSpec Undefined w
      else if typeof methSpec = O_type then
        (if methSpec = Null then (Throw TypeError, w)
         else addHandledMethod this (Str srcName)
                (member w methSpec ''destName'')
                (member w methSpec ''modelIsThis'')
                (member w methSpec ''canReplace'') w)
      else (Return Undefined, w))"

fun object_loop :: "ref \<Rightarrow> val \<Rightarrow> string list \<Rightarrow> world \<Rightarrow> outcome \<times> world" where
  "object_loop this methodsToAdd [] w = (Return Undefined, w)"
| "object_loop this methodsToAdd (srcName # rest) w =
     (case handle_spec this srcName (member w methodsToAdd srcName) w of
        (Throw e, w') \<Rightarrow> (Throw e, w')
      | (Return v, w') \<Rightarrow> object_loop this methodsToAdd rest w')"

definition addHandledMethods :: "ref \<Rightarrow> val \<Rightarrow> world \<Rightarrow> outcome \<times> world" where
  "addHandledMethods this methodsToAdd w =
     (if typeof methodsToAdd = O_type then
        (case methodsToAdd of
           Arr names \<Rightarrow> array_loop this names w
         | _ \<Rightarrow> object_loop this methodsToAdd (enum_keys w methodsToAdd) w)
      else
        (Return Undefined,
         console_error [Str ''Non-object sent to addHandledMethods()'', methodsToAdd] w))"

section \<open>Notions used in the statements\<close>

text \<open>
  Two worlds that differ at most in what was written to the console.
\<close>

definition eq_upto_console :: "world \<Rightarrow> world \<Rightarrow> bool" where
  "eq_upto_console w v \<longleftrightarrow>
     heap w = heap v \<and> run_init w = run_init v \<and> this_api w = this_api v \<and> calls w = calls v"





text \<open>
  The call that \<^verbatim>\<open>run\<close> is expected to make for a registered name: the function stored
  under the name, the receiver that its \<^verbatim>\<open>_this_api\<close> flag and the \<^verbatim>\<open>api\<close> of the
  group select, and the configuration as the only argument.
\<close>

definition func_ref :: "val \<Rightarrow> ref" where
  "func_ref v = (case v of Func f \<Rightarrow> f | _ \<Rightarrow> 0)"

definition receiver :: "val \<Rightarrow> InitGroup \<Rightarrow> world \<Rightarrow> val \<Rightarrow> val" where
  "receiver this g w m = (if truthy (this_api w m) \<and> truthy (api g) then api g else this)"

definition expected_call :: "val \<Rightarrow> InitGroup \<Rightarrow> world \<Rightarrow> val \<Rightarrow> string \<Rightarrow> call" where
  "expected_call this g w conf k =
     (let m = get_prop (methods g) k in (func_ref m, receiver this g w m, [conf]))"

text \<open>
  A name under which a function object is stored that returns when it is called on that
  receiver with the configuration.
\<close>

definition returning_initializer ::
  "behaviour \<Rightarrow> val \<Rightarrow> InitGroup \<Rightarrow> world \<Rightarrow> val \<Rightarrow> string \<Rightarrow> bool" where
  "returning_initializer beh this g w conf k =
     (case get_prop (methods g) k of
        Func f \<Rightarrow> (case beh f (receiver this g w (Func f)) [conf] of
                     Return v \<Rightarrow> True | Throw e \<Rightarrow> False)
      | _ \<Rightarrow> False)"

text \<open>
  The names of a list whose function has not run in the world \<open>w\<close> and is neither among the
  functions \<open>seen\<close> nor stored under an earlier name of the list.
\<close>

fun pending :: "world \<Rightarrow> InitGroup \<Rightarrow> val list \<Rightarrow> string list \<Rightarrow> string list" where
  "pending w g seen [] = []"
| "pending w g seen (k # ks) =
     (let m = get_prop (methods g) k in
      if truthy (run_init w m) \<or> m \<in> set seen then pending w g seen ks
      else k # pending w g (m # seen) ks)"

text \<open>
  Calls made one after the other; an exception ends the sequence, and what the calls before
  it did stays.
\<close>

fun in_sequence :: "(world \<Rightarrow> outcome \<times> world) list \<Rightarrow> world \<Rightarrow> outcome \<times> world" where
  "in_sequence [] w = (Return Undefined, w)"
| "in_sequence (c # cs) w =
     (case c w of (Throw e, w') \<Rightarrow> (Throw e, w') | (Return v, w') \<Rightarrow> in_sequence cs w')"

text \<open>
  The reading that the documentation of \<^verbatim>\<open>addHandledMethods\<close> gives to the value stored
  under a key \<^verbatim>\<open>srcName\<close> of a keyed mapping: a string is the \<^verbatim>\<open>destName\<close>, a boolean
  is \<^verbatim>\<open>modelIsThis\<close>, an object literal supplies the options that bear the names of the
  parameters; what is not given is omitted from the call.
\<close>

definition lookup :: "(string \<times> val) list \<Rightarrow> string \<Rightarrow> val" where
  "lookup ps k = (case map_of ps k of Some x \<Rightarrow> x | None \<Rightarrow> Undefined)"

fun spec_call :: "ref \<Rightarrow> string \<Rightarrow> val \<Rightarrow> world \<Rightarrow> outcome \<times> world" where
  "spec_call this srcName (Str s) w =
     addHandledMethod this (Str srcName) (Str s) Undefined Undefined w"
| "spec_call this srcName (Bool b) w =
     addHandledMethod this (Str srcName) Undefined (Bool b) Undefined w"
| "spec_call this srcName (Rec fs) w =
     addHandledMethod this (Str srcName)
       (lookup fs ''destName'') (lookup fs ''modelIsThis'') (lookup fs ''canReplace'') w"
| "spec_call this srcName v w = (Return Undefined, w)"

definition is_spec :: "val \<Rightarrow> bool" where
  "is_spec v = (case v of Str s \<Rightarrow> True | Bool b \<Rightarrow> True | Rec fs \<Rightarrow> True | _ \<Rightarrow> False)"

section \<open>Example data\<close>

text \<open>
  An empty world, a fresh group at reference 20, a call stack of depth 3, and a behaviour
  for the function objects: 11 returns 7, 12 returns \<^verbatim>\<open>false\<close>, 13 throws, every
  other one returns \<^verbatim>\<open>undefined\<close>.
\<close>

definition ex_world :: world where
  "ex_world = \<lparr>heap = (\<lambda>r. \<lparr>own = [], inherited = []\<rparr>), run_init = (\<lambda>f. Undefined),
     this_api = (\<lambda>f. Undefined), calls = [], console = []\<rparr>"

definition ex_depth :: nat where
  "ex_depth = Suc (Suc (Suc 0))"

definition ex_beh :: behaviour where
  "ex_beh r recv args =
     (if r = 11 then Return (Num 7)
      else if r = 12 then Return (Bool False)
      else if r = 13 then Throw (Thrown (Str ''boom''))
      else Return Undefined)"

definition ex_group :: InitGroup where
  "ex_group = InitGroup_constructor [] (Str ''init'') Undefined"

text \<open>The group and the world after \<^verbatim>\<open>add('a', f1)\<close>.\<close>

definition ex_group_a :: InitGroup where
  "ex_group_a = fst (snd (add (Object 20) ex_group (Str ''a'') (Func 11) Undefined ex_world))"

definition ex_world_a :: world where
  "ex_world_a = snd (snd (add (Object 20) ex_group (Str ''a'') (Func 11) Undefined ex_world))"

text \<open>
  An extension at reference 30 whose class has the methods \<^verbatim>\<open>setup\<close>, \<^verbatim>\<open>foo\<close>,
  \<^verbatim>\<open>bar\<close> and \<^verbatim>\<open>boom\<close>, and a model at reference 40 with an own property that
  holds 3, an own property that holds \<^verbatim>\<open>undefined\<close>, and an inherited method
  \<^verbatim>\<open>render\<close>.
\<close>

definition ex_ext :: jsobj where
  "ex_ext = \<lparr>own = [],
     inherited = [(''setup'', Func 14), (''foo'', Func 11), (''bar'', Func 12),
                  (''boom'', Func 13)]\<rparr>"

definition ex_model :: jsobj where
  "ex_model = \<lparr>own = [(''taken'', Num 3), (''undef'', Undefined)],
     inherited = [(''render'', Func 15)]\<rparr>"

definition ex_is_model :: "ref \<Rightarrow> bool" where
  "ex_is_model r = (r = 40)"

definition ex_heap_world :: world where
  "ex_heap_world = ex_world\<lparr>heap := (heap ex_world)(30 := ex_ext, 40 := ex_model)\<rparr>"

text \<open>The world after \<^verbatim>\<open>new Ext(model)\<close>.\<close>

definition ex_constructed :: world where
  "ex_constructed =
     snd (Extension_constructor ex_depth ex_beh ex_is_model 30 (Object 40) ex_heap_world)"

text \<open>The world after \<^verbatim>\<open>addHandledMethod('foo')\<close> on that extension.\<close>

definition ex_installed :: world where
  "ex_installed = snd (addHandledMethod 30 (Str ''foo'') Undefined Undefined Undefined ex_constructed)"

text \<open>A group whose \<^verbatim>\<open>api\<close> is the object at reference 21.\<close>

definition ex_group_api :: InitGroup where
  "ex_group_api = InitGroup_constructor [] (Str ''init'') (Object 21)"


text \<open>
  The group and the world after \<^verbatim>\<open>add('b', f12)\<close> and then \<^verbatim>\<open>add('1', f11)\<close> on the
  fresh group.
\<close>

definition ex_group_b1 :: InitGroup where
  "ex_group_b1 =
     (let (r1, g1, w1) = add (Object 20) ex_group (Str ''b'') (Func 12) Undefined ex_world;
          (r2, g2, w2) = add (Object 20) g1 (Str ''1'') (Func 11) Undefined w1
      in g2)"

definition ex_world_b1 :: world where
  "ex_world_b1 =
     (let (r1, g1, w1) = add (Object 20) ex_group (Str ''b'') (Func 12) Undefined ex_world;
          (r2, g2, w2) = add (Object 20) g1 (Str ''1'') (Func 11) Undefined w1
      in w2)"

text \<open>The bulk argument of the example in the documentation.\<close>

definition ex_bulk :: val where
  "ex_bulk = Rec [(''foo'', Str ''x''), (''bar'', Bool True),
     (''boom'', Rec [(''destName'', Str ''y''), (''modelIsThis'', Bool True),
                     (''canReplace'', Bool True)])]"

section \<open>Basic facts\<close>

lemma get_prop_set_prop: "get_prop (set_prop obj k v) k' = (if k' = k then v else get_prop obj k')"
  by (simp add: get_prop_def set_prop_def update_conv' split: option.splits)

lemma invoke_frame:
  "invoke d beh f recv args w = (out, w') \<Longrightarrow>
     heap w' = heap w \<and> run_init w' = run_init w \<and> this_api w' = this_api w \<and> console w' = console w"
  by (induction d beh f recv args w arbitrary: out w' rule: invoke.induct)
     (auto split: prod.splits outcome.splits)

lemma invoke_upto_console:
  "eq_upto_console w v \<Longrightarrow>
     fst (invoke d beh f recv args w) = fst (invoke d beh f recv args v) \<and>
     eq_upto_console (snd (invoke d beh f recv args w)) (snd (invoke d beh f recv args v))"
proof (induction d beh f recv args w arbitrary: v rule: invoke.induct)
  case (3 d beh ext srcName applyThis recv args w)
  have h: "heap w = heap v" using "3.prems" by (simp add: eq_upto_console_def)
  from "3.IH"[OF "3.prems"] show ?case
    by (auto simp: h split: prod.splits outcome.splits)
qed (auto simp: eq_upto_console_def)

lemma need_upto_console:
  assumes "eq_upto_console w v"
  shows "fst (need d beh this g nm conf w) = fst (need d beh this g nm conf v) \<and>
         eq_upto_console (snd (need d beh this g nm conf w)) (snd (need d beh this g nm conf v))"
proof -
  let ?m = "get_prop (methods g) (to_str nm)"
  let ?t = "if truthy (this_api w ?m) \<and> truthy (api g) then api g else this"
  have e: "run_init w = run_init v" "this_api w = this_api v"
    using assms by (simp_all add: eq_upto_console_def)
  note i = invoke_upto_console[OF assms, of d beh ?m ?t "[conf]"]
  show ?thesis
    using i assms
    by (auto simp: need_def Let_def e eq_upto_console_def console_error_def
             split: prod.splits outcome.splits)
qed


lemma run_loop_upto_console:
  "eq_upto_console w v \<Longrightarrow>
     fst (run_loop d beh this g conf ks w) = fst (run_loop d beh this g conf ks v) \<and>
     eq_upto_console (snd (run_loop d beh this g conf ks w)) (snd (run_loop d beh this g conf ks v))"
proof (induction ks arbitrary: w v)
  case Nil
  then show ?case by simp
next
  case (Cons k ks)
  note n = need_upto_console[OF Cons.prems, of d beh this g "Str k" conf]
  obtain o1 w1 where a: "need d beh this g (Str k) conf w = (o1, w1)" by (cases "need d beh this g (Str k) conf w")
  obtain o2 v1 where b: "need d beh this g (Str k) conf v = (o2, v1)" by (cases "need d beh this g (Str k) conf v")
  from n a b have oo: "o1 = o2" and e: "eq_upto_console w1 v1" by simp_all
  show ?case
  proof (cases o1)
    case (Return x)
    with a b oo Cons.IH[OF e] show ?thesis by auto
  next
    case (Throw x)
    with a b oo e show ?thesis by auto
  qed
qed

lemma eq_upto_console_error: "eq_upto_console (console_error es w) w"
  by (simp add: eq_upto_console_def console_error_def)








lemma addHandledMethod_falsy_destName:
  "\<not> truthy a \<Longrightarrow> \<not> truthy b \<Longrightarrow>
   addHandledMethod this s a m c w = addHandledMethod this s b m c w"
  by (simp add: addHandledMethod_def)

lemma handle_spec_spec_call:
  "is_spec v \<Longrightarrow> handle_spec this k v w = spec_call this k v w"
  by (cases v)
     (auto simp: is_spec_def handle_spec_def member_def lookup_def
           intro: addHandledMethod_falsy_destName)

lemma object_loop_in_sequence:
  "\<forall>k\<in>set ks. is_spec (lookup ps k) \<Longrightarrow>
   object_loop this (Rec ps) ks w
     = in_sequence (map (\<lambda>k. spec_call this k (lookup ps k)) ks) w"
proof (induction ks arbitrary: w)
  case Nil
  then show ?case by simp
next
  case (Cons k ks)
  have m: "member w (Rec ps) k = lookup ps k" by (simp add: member_def lookup_def)
  have h: "handle_spec this k (lookup ps k) w = spec_call this k (lookup ps k) w"
    using Cons.prems by (simp add: handle_spec_spec_call)
  show ?case
    using Cons by (auto simp: m h split: prod.splits outcome.splits)
qed

lemma array_loop_in_sequence:
  "array_loop this names w
     = in_sequence (map (\<lambda>n. addHandledMethod this n Undefined Undefined Undefined) names) w"
  by (induction names arbitrary: w) (auto split: prod.splits outcome.splits)

lemma need_unrun_func:
  assumes "get_prop (methods g) (to_str nm) = Func f" "\<not> truthy (run_init w (Func f))" "0 < d"
  shows "need d beh this g nm conf w =
        (let wantThis = (if truthy (this_api w (Func f)) \<and> truthy (api g) then api g else this) in
         case beh f wantThis [conf] of
           Return ret \<Rightarrow> (Return ret, w\<lparr>calls := calls w @ [(f, wantThis, [conf])],
                                         run_init := (run_init w)(Func f := Bool True)\<rparr>)
         | Throw e \<Rightarrow> (Throw e, w\<lparr>calls := calls w @ [(f, wantThis, [conf])]\<rparr>))"
  using assms by (cases d) (auto simp: need_def Let_def split: outcome.splits)

lemma returning_initializerD:
  "returning_initializer beh this g w conf k \<Longrightarrow>
     \<exists>f v. get_prop (methods g) k = Func f \<and> beh f (receiver this g w (Func f)) [conf] = Return v"
  by (auto simp: returning_initializer_def split: val.splits outcome.splits)

lemma pending_sound:
  "k \<in> set (pending w g seen ks) \<Longrightarrow>
     k \<in> set ks \<and> \<not> truthy (run_init w (get_prop (methods g) k)) \<and>
     get_prop (methods g) k \<notin> set seen"
proof (induction ks arbitrary: seen)
  case Nil
  then show ?case by simp
next
  case (Cons x xs)
  let ?m = "get_prop (methods g) x"
  show ?case
  proof (cases "truthy (run_init w ?m) \<or> ?m \<in> set seen")
    case True
    with Cons.prems have "k \<in> set (pending w g seen xs)" by (simp add: Let_def)
    from Cons.IH[OF this] show ?thesis by simp
  next
    case False
    with Cons.prems have "k = x \<or> k \<in> set (pending w g (?m # seen) xs)"
      by (simp add: Let_def)
    then show ?thesis
    proof
      assume "k = x"
      with False show ?thesis by simp
    next
      assume "k \<in> set (pending w g (?m # seen) xs)"
      from Cons.IH[OF this] show ?thesis by simp
    qed
  qed
qed

lemma pending_distinct: "distinct (map (get_prop (methods g)) (pending w g seen ks))"
proof (induction ks arbitrary: seen)
  case Nil
  then show ?case by simp
next
  case (Cons x xs)
  let ?m = "get_prop (methods g) x"
  show ?case
  proof (cases "truthy (run_init w ?m) \<or> ?m \<in> set seen")
    case True
    with Cons.IH[of seen] show ?thesis by (simp add: Let_def)
  next
    case False
    have "?m \<notin> get_prop (methods g) ` set (pending w g (?m # seen) xs)"
    proof
      assume "?m \<in> get_prop (methods g) ` set (pending w g (?m # seen) xs)"
      then obtain k where k: "k \<in> set (pending w g (?m # seen) xs)"
        and e: "get_prop (methods g) k = ?m" by auto
      from pending_sound[OF k] e show False by simp
    qed
    with False Cons.IH[of "?m # seen"] show ?thesis by (simp add: Let_def)
  qed
qed

lemma pending_complete:
  "k \<in> set ks \<Longrightarrow> \<not> truthy (run_init w (get_prop (methods g) k)) \<Longrightarrow>
   get_prop (methods g) k \<notin> set seen \<Longrightarrow>
   get_prop (methods g) k \<in> get_prop (methods g) ` set (pending w g seen ks)"
proof (induction ks arbitrary: seen)
  case Nil
  then show ?case by simp
next
  case (Cons x xs)
  show ?case
  proof (cases "get_prop (methods g) x = get_prop (methods g) k")
    case True
    with Cons.prems show ?thesis by (simp add: Let_def)
  next
    case False
    with Cons.prems have "k \<in> set xs" by auto
    from Cons.IH[OF this Cons.prems(2)] Cons.prems(3) False show ?thesis
      by (auto simp: Let_def)
  qed
qed

lemma count_distinct_map:
  "distinct (map h xs) \<Longrightarrow>
   length (filter (\<lambda>x. h x = y) xs) = (if y \<in> h ` set xs then 1 else 0)"
  by (induction xs) auto

lemma run_loop_pending:
  assumes "0 < d"
  shows "\<forall>k\<in>set ks. returning_initializer beh this g w conf k \<Longrightarrow>
     \<forall>x. truthy (run_init wc x) \<longleftrightarrow> truthy (run_init w x) \<or> x \<in> set seen \<Longrightarrow>
     this_api wc = this_api w \<Longrightarrow>
     \<exists>w'. run_loop d beh this g conf ks wc = (Return Undefined, w') \<and>
          calls w' = calls wc @ map (expected_call this g w conf) (pending w g seen ks) \<and>
          (\<forall>x. truthy (run_init w' x) \<longleftrightarrow>
                 truthy (run_init wc x) \<or> x \<in> get_prop (methods g) ` set ks) \<and>
          this_api w' = this_api wc \<and> console w' = console wc \<and> heap w' = heap wc"
proof (induction ks arbitrary: wc seen)
  case Nil
  then show ?case by simp
next
  case (Cons k ks)
  let ?m = "get_prop (methods g) k"
  from Cons.prems(1) have "returning_initializer beh this g w conf k" by simp
  from returning_initializerD[OF this] obtain f v where m: "?m = Func f"
    and v0: "beh f (receiver this g w (Func f)) [conf] = Return v"
    by blast
  have rest: "\<forall>k\<in>set ks. returning_initializer beh this g w conf k" using Cons.prems(1) by simp
  show ?case
  proof (cases "truthy (run_init wc ?m)")
    case True
    then have n: "need d beh this g (Str k) conf wc = (Return (Bool True), wc)"
      using m by (simp add: need_def)
    from True Cons.prems(2) have p: "pending w g seen (k # ks) = pending w g seen ks"
      by (simp add: Let_def)
    from Cons.IH[OF rest Cons.prems(2) Cons.prems(3)] obtain w' where
      all: "run_loop d beh this g conf ks wc = (Return Undefined, w') \<and>
          calls w' = calls wc @ map (expected_call this g w conf) (pending w g seen ks) \<and>
          (\<forall>x. truthy (run_init w' x) \<longleftrightarrow>
                 truthy (run_init wc x) \<or> x \<in> get_prop (methods g) ` set ks) \<and>
          this_api w' = this_api wc \<and> console w' = console wc \<and> heap w' = heap wc" ..
    have "(\<forall>x. truthy (run_init w' x) \<longleftrightarrow>
                 truthy (run_init wc x) \<or> x \<in> get_prop (methods g) ` set (k # ks))"
      using all True by auto
    with all n p show ?thesis by auto
  next
    case False
    let ?t = "if truthy (this_api wc (Func f)) \<and> truthy (api g) then api g else this"
    let ?w1 = "wc\<lparr>calls := calls wc @ [(f, ?t, [conf])],
                  run_init := (run_init wc)(Func f := Bool True)\<rparr>"
    have tr: "?t = receiver this g w (Func f)"
      using Cons.prems(3) by (simp add: receiver_def)
    have v: "beh f ?t [conf] = Return v"
      using v0 tr by simp
    have n: "need d beh this g (Str k) conf wc = (Return v, ?w1)"
      using need_unrun_func[of g "Str k" f wc d beh this conf] m False assms v
      by (simp add: Let_def)
    from False Cons.prems(2) have p: "pending w g seen (k # ks) = k # pending w g (?m # seen) ks"
      by (simp add: Let_def)
    have inv: "\<forall>x. truthy (run_init ?w1 x) \<longleftrightarrow> truthy (run_init w x) \<or> x \<in> set (?m # seen)"
      using Cons.prems(2) m by auto
    have ta: "this_api ?w1 = this_api w" using Cons.prems(3) by simp
    from Cons.IH[OF rest inv ta] obtain w' where
      all: "run_loop d beh this g conf ks ?w1 = (Return Undefined, w') \<and>
          calls w' = calls ?w1 @ map (expected_call this g w conf) (pending w g (?m # seen) ks) \<and>
          (\<forall>x. truthy (run_init w' x) \<longleftrightarrow>
                 truthy (run_init ?w1 x) \<or> x \<in> get_prop (methods g) ` set ks) \<and>
          this_api w' = this_api ?w1 \<and> console w' = console ?w1 \<and> heap w' = heap ?w1" ..
    have ek: "expected_call this g w conf k = (f, ?t, [conf])"
      using tr by (simp add: expected_call_def m func_ref_def)
    have l: "run_loop d beh this g conf (k # ks) wc = (Return Undefined, w')"
      using n all by simp
    have c: "calls w' = calls wc @ map (expected_call this g w conf) (pending w g seen (k # ks))"
      using all ek p by simp
    have fl: "\<forall>x. truthy (run_init w' x) \<longleftrightarrow>
                 truthy (run_init wc x) \<or> x \<in> get_prop (methods g) ` set (k # ks)"
      using all m by auto
    have o: "this_api w' = this_api wc" "console w' = console wc" "heap w' = heap wc"
      using all by simp_all
    from l c fl o show ?thesis by blast
  qed
qed


lemma pending_all:
  "distinct ks \<Longrightarrow> inj_on (get_prop (methods g)) (set ks) \<Longrightarrow>
   \<forall>k\<in>set ks. \<not> truthy (run_init w (get_prop (methods g) k)) \<Longrightarrow>
   set seen \<inter> get_prop (methods g) ` set ks = {} \<Longrightarrow>
   pending w g seen ks = ks"
proof (induction ks arbitrary: seen)
  case Nil
  then show ?case by simp
next
  case (Cons x xs)
  let ?m = "get_prop (methods g) x"
  have a: "\<not> truthy (run_init w ?m)" "?m \<notin> set seen" using Cons.prems by auto
  have d: "distinct xs" and i: "inj_on (get_prop (methods g)) (set xs)"
    and u: "\<forall>k\<in>set xs. \<not> truthy (run_init w (get_prop (methods g) k))"
    using Cons.prems by (auto simp: inj_on_def)
  have "?m \<notin> get_prop (methods g) ` set xs"
    using Cons.prems(1,2) by (auto simp: inj_on_def)
  with Cons.prems(4) have s: "set (?m # seen) \<inter> get_prop (methods g) ` set xs = {}" by auto
  from Cons.IH[OF d i u s] a show ?case by (simp add: Let_def)
qed

lemma set_for_in_order: "set (for_in_order ks) = set ks"
  by (auto simp: for_in_order_def)

lemma distinct_for_in_order: "distinct ks \<Longrightarrow> distinct (for_in_order ks)"
  by (auto simp: for_in_order_def)

lemma for_in_order_no_index:
  "\<forall>k\<in>set ks. array_index k = None \<Longrightarrow> for_in_order ks = ks"
  by (simp add: for_in_order_def)

lemma ex_b1_eq:
  "ex_group_b1 = \<lparr>api = Null, name = Str ''init'',
     methods = \<lparr>own = [(''b'', Func 12), (''1'', Func 11)], inherited = []\<rparr>\<rparr>"
  "ex_world_b1 = ex_world\<lparr>run_init := (run_init ex_world)(Func 12 := Bool False, Func 11 := Bool False),
     this_api := (this_api ex_world)(Func 12 := Bool False, Func 11 := Bool False)\<rparr>"
  by (simp_all add: ex_group_b1_def ex_world_b1_def ex_group_def InitGroup_constructor_def
      add_def get_prop_def set_prop_def Let_def)

lemma ex_for_in_b1: "for_in_order [''b'', ''1''] = [''1'', ''b'']"
  by (simp add: for_in_order_def array_index_def digit_val_def index_of_def)

lemma ex_group_a_eq:
  "ex_group_a = \<lparr>api = Null, name = Str ''init'',
     methods = \<lparr>own = [(''a'', Func 11)], inherited = []\<rparr>\<rparr>"
  by (simp add: ex_group_a_def ex_group_def InitGroup_constructor_def add_def get_prop_def
      set_prop_def)

lemma ex_world_a_eq:
  "ex_world_a = ex_world\<lparr>run_init := (run_init ex_world)(Func 11 := Bool False),
     this_api := (this_api ex_world)(Func 11 := Bool False)\<rparr>"
  by (simp add: ex_world_a_def ex_group_def InitGroup_constructor_def add_def get_prop_def)

lemma ex_need_a:
  "need ex_depth ex_beh (Object 20) ex_group_a (Str ''a'') conf ex_world_a =
     (Return (Num 7),
      ex_world_a\<lparr>calls := [(11, Object 20, [conf])],
        run_init := (run_init ex_world_a)(Func 11 := Bool True)\<rparr>)"
  by (simp add: need_def Let_def ex_depth_def ex_group_a_eq ex_world_a_eq ex_world_def
      ex_beh_def get_prop_def)

lemma ex_constructed_eq:
  "ex_constructed = ex_heap_world
     \<lparr>heap := (heap ex_heap_world)(30 := ex_ext\<lparr>own := [(''parent'', Object 40)]\<rparr>),
      calls := [(14, Object 30, [Object 40])]\<rparr>"
  by (simp add: ex_constructed_def Extension_constructor_def instanceof_Model_def ex_is_model_def
      Let_def ex_heap_world_def ex_world_def ex_ext_def get_prop_def set_prop_def ex_depth_def
      ex_beh_def)

lemma ex_constructed_heap:
  "heap ex_constructed 30 = ex_ext\<lparr>own := [(''parent'', Object 40)]\<rparr>"
  "heap ex_constructed 40 = ex_model"
  by (simp_all add: ex_constructed_eq ex_heap_world_def)

lemma ex_installed_eq:
  "addHandledMethod 30 (Str ''foo'') Undefined Undefined Undefined ex_constructed
     = (Return Undefined, ex_installed)"
  by (simp add: ex_installed_def addHandledMethod_def Let_def ex_constructed_heap ex_ext_def
      ex_model_def get_prop_def)

lemma ex_installed_heap:
  "heap ex_installed 30 = ex_ext\<lparr>own := [(''parent'', Object 40)]\<rparr>"
  "heap ex_installed 40 = ex_model\<lparr>own := [(''taken'', Num 3), (''undef'', Undefined),
      (''foo'', Fwd 30 (Str ''foo'') (Object 30))]\<rparr>"
  by (simp_all add: ex_installed_def addHandledMethod_def Let_def ex_constructed_heap ex_ext_def
      ex_model_def get_prop_def set_prop_def)

section \<open>The claims\<close>

subsection \<open>C1: an initializer that has run is not run again\<close>




subsection \<open>C2: run calls every initializer\<close>

text \<open>
  Claim C2 says that \<^verbatim>\<open>run\<close> goes through the names in the order of their
  registration and attempts every initializer. The loop is
  \<^verbatim>\<open>for (const name in this.methods)\<close>, which visits the names that are array indices
  first: after \<^verbatim>\<open>add('b', f12)\<close> and \<^verbatim>\<open>add('1', f11)\<close>, \<^verbatim>\<open>run\<close> calls \<^verbatim>\<open>f11\<close>
  before \<^verbatim>\<open>f12\<close>. And the loop has no \<^verbatim>\<open>try\<close>: after \<^verbatim>\<open>add('a', f13)\<close> and
  \<^verbatim>\<open>add('b', f11)\<close>, where \<^verbatim>\<open>f13\<close> throws, \<^verbatim>\<open>run\<close> throws and \<^verbatim>\<open>f11\<close> is not
  called.
\<close>

theorem run_order_counterexample:
  "map fst (own (methods ex_group_b1)) = [''b'', ''1''] \<and>
   calls (snd (run ex_depth ex_beh (Object 20) ex_group_b1 (Num 5) ex_world_b1))
     = [(11, Object 20, [Num 5]), (12, Object 20, [Num 5])] \<and>
   (let (r1, g1, w1) = add (Object 20) ex_group (Str ''a'') (Func 13) Undefined ex_world;
        (r2, g2, w2) = add (Object 20) g1 (Str ''b'') (Func 11) Undefined w1
    in r1 = Bool True \<and> r2 = Bool True \<and>
       map fst (own (methods g2)) = [''a'', ''b''] \<and>
       run ex_depth ex_beh (Object 20) g2 (Num 5) w2
         = (Throw (Thrown (Str ''boom'')), w2\<lparr>calls := [(13, Object 20, [Num 5])]\<rparr>))"
  by (simp add: ex_b1_eq run_def for_in_keys_def ex_for_in_b1 need_def Let_def ex_world_def
      get_prop_def set_prop_def ex_depth_def ex_beh_def add_def ex_group_def
      InitGroup_constructor_def for_in_order_def array_index_def digit_val_def)

text \<open>
  Claim C2 as amended. Let the call stack not be exhausted, and let every registered name
  hold a function object that returns when called on its receiver with the configuration.
  Then
  \<^verbatim>\<open>run(conf)\<close> returns \<^verbatim>\<open>undefined\<close>, writes nothing to the console, and goes
  through the names in \<^verbatim>\<open>for ... in\<close> order (array indices ascending, then the other
  names in registration order), whatever the initializers return. The calls it adds to the
  trace are those for the names whose function has not run before and is not stored under
  an earlier name: a registered function that had not run is called exactly once, one that
  had run is not called, and afterwards every registered function is marked as run. When
  the names hold distinct functions of which none has run, there is exactly one call for
  every name. When no name is an array index, the order is the order of registration.
\<close>

theorem run_invokes_each_once:
  assumes "0 < d"
    and "\<forall>k\<in>fst ` set (own (methods g)). returning_initializer beh this g w conf k"
  shows "\<exists>w'. run d beh this g conf w = (Return Undefined, w') \<and>
          calls w' = calls w @ map (expected_call this g w conf)
                                 (pending w g [] (for_in_keys (methods g))) \<and>
          (\<forall>k\<in>fst ` set (own (methods g)).
             truthy (run_init w' (get_prop (methods g) k)) \<and>
             length (filter (\<lambda>c. fst c = func_ref (get_prop (methods g) k))
                      (map (expected_call this g w conf)
                           (pending w g [] (for_in_keys (methods g)))))
               = (if truthy (run_init w (get_prop (methods g) k)) then 0 else 1)) \<and>
          console w' = console w \<and>
          (distinct (map fst (own (methods g))) \<and>
           inj_on (get_prop (methods g)) (fst ` set (own (methods g))) \<and>
           (\<forall>k\<in>fst ` set (own (methods g)). \<not> truthy (run_init w (get_prop (methods g) k))) \<longrightarrow>
             pending w g [] (for_in_keys (methods g)) = for_in_keys (methods g)) \<and>
          ((\<forall>k\<in>fst ` set (own (methods g)). array_index k = None) \<longrightarrow>
             for_in_keys (methods g) = map fst (own (methods g)))"
proof -
  let ?ks = "for_in_keys (methods g)"
  let ?m = "get_prop (methods g)"
  let ?P = "pending w g [] ?ks"
  have s: "set ?ks = fst ` set (own (methods g))"
    by (simp add: for_in_keys_def set_for_in_order)
  have rk: "\<forall>k\<in>set ?ks. returning_initializer beh this g w conf k"
    using assms(2) s by simp
  have inv: "\<forall>x. truthy (run_init w x) \<longleftrightarrow> truthy (run_init w x) \<or> x \<in> set []" by simp
  from run_loop_pending[OF assms(1) rk inv refl] obtain w' where
    all: "run_loop d beh this g conf ?ks w = (Return Undefined, w') \<and>
          calls w' = calls w @ map (expected_call this g w conf) ?P \<and>
          (\<forall>x. truthy (run_init w' x) \<longleftrightarrow> truthy (run_init w x) \<or> x \<in> ?m ` set ?ks) \<and>
          this_api w' = this_api w \<and> console w' = console w \<and> heap w' = heap w" ..
  have r: "run d beh this g conf w = (Return Undefined, w')"
    using all by (simp add: run_def)
  have c: "calls w' = calls w @ map (expected_call this g w conf) ?P"
    using all by simp
  have co: "console w' = console w"
    using all by simp
  have fl: "truthy (run_init w' (?m k))" if "k \<in> set ?ks" for k
    using all that by simp
  have fst_e: "fst (expected_call this g w conf x) = func_ref (?m x)" for x
    by (simp add: expected_call_def Let_def)
  have cnt: "length (filter (\<lambda>c. fst c = func_ref (?m k)) (map (expected_call this g w conf) ?P))
               = (if truthy (run_init w (?m k)) then 0 else 1)"
    if k: "k \<in> set ?ks" for k
  proof -
    from rk k have "returning_initializer beh this g w conf k" by simp
    from returning_initializerD[OF this] obtain fk where fk: "?m k = Func fk" by blast
    have e: "(func_ref (?m x) = func_ref (?m k)) \<longleftrightarrow> (?m x = ?m k)" if "x \<in> set ?P" for x
    proof -
      from pending_sound[OF that] have "x \<in> set ?ks" by simp
      with rk have "returning_initializer beh this g w conf x" by simp
      from returning_initializerD[OF this] obtain fx where "?m x = Func fx" by blast
      with fk show ?thesis by (simp add: func_ref_def)
    qed
    have "filter (\<lambda>x. func_ref (?m x) = func_ref (?m k)) ?P = filter (\<lambda>x. ?m x = ?m k) ?P"
      by (rule filter_cong[OF refl]) (rule e)
    then have l: "length (filter (\<lambda>x. func_ref (?m x) = func_ref (?m k)) ?P)
        = (if ?m k \<in> ?m ` set ?P then 1 else 0)"
      using count_distinct_map[where h = ?m and xs = ?P and y = "?m k", OF pending_distinct] by simp
    have "?m k \<in> ?m ` set ?P \<longleftrightarrow> \<not> truthy (run_init w (?m k))"
    proof
      assume "?m k \<in> ?m ` set ?P"
      then obtain x where x: "x \<in> set ?P" and xe: "?m x = ?m k" by auto
      from pending_sound[OF x] xe show "\<not> truthy (run_init w (?m k))" by simp
    next
      assume "\<not> truthy (run_init w (?m k))"
      from pending_complete[OF k this, where seen = "[]"] show "?m k \<in> ?m ` set ?P" by simp
    qed
    with l have "length (filter (\<lambda>x. func_ref (?m x) = func_ref (?m k)) ?P)
        = (if truthy (run_init w (?m k)) then 0 else 1)" by simp
    then show ?thesis
      by (simp only: filter_map length_map comp_def fst_e)
  qed
  have both: "\<forall>k\<in>fst ` set (own (methods g)).
             truthy (run_init w' (?m k)) \<and>
             length (filter (\<lambda>c. fst c = func_ref (?m k)) (map (expected_call this g w conf) ?P))
               = (if truthy (run_init w (?m k)) then 0 else 1)"
    using fl cnt unfolding s by blast
  have pa: "distinct (map fst (own (methods g))) \<and>
           inj_on ?m (fst ` set (own (methods g))) \<and>
           (\<forall>k\<in>fst ` set (own (methods g)). \<not> truthy (run_init w (?m k))) \<longrightarrow> ?P = ?ks"
  proof
    assume h: "distinct (map fst (own (methods g))) \<and>
           inj_on ?m (fst ` set (own (methods g))) \<and>
           (\<forall>k\<in>fst ` set (own (methods g)). \<not> truthy (run_init w (?m k)))"
    then have dk: "distinct ?ks" by (simp add: for_in_keys_def distinct_for_in_order)
    from h have ik: "inj_on ?m (set ?ks)" unfolding s by simp
    from h have uk: "\<forall>k\<in>set ?ks. \<not> truthy (run_init w (?m k))" unfolding s by simp
    from pending_all[OF dk ik uk, where seen = "[]"] show "?P = ?ks" by simp
  qed
  have ord: "(\<forall>k\<in>fst ` set (own (methods g)). array_index k = None) \<longrightarrow>
             ?ks = map fst (own (methods g))"
  proof
    assume "\<forall>k\<in>fst ` set (own (methods g)). array_index k = None"
    then have "\<forall>k\<in>set (map fst (own (methods g))). array_index k = None" by simp
    from for_in_order_no_index[OF this] show "?ks = map fst (own (methods g))"
      by (simp add: for_in_keys_def)
  qed
  show ?thesis
    by (intro exI[of _ w'] conjI) (fact r, fact c, fact both, fact co, fact pa, fact ord)
qed


theorem run_invokes_each_once_witness:
  "0 < ex_depth \<and>
   returning_initializer ex_beh (Object 20) ex_group_b1 ex_world_b1 (Num 5) ''b'' \<and>
   returning_initializer ex_beh (Object 20) ex_group_b1 ex_world_b1 (Num 5) ''1'' \<and>
   (\<exists>w'. run ex_depth ex_beh (Object 20) ex_group_b1 (Num 5) ex_world_b1
            = (Return Undefined, w') \<and>
         calls w' = [(11, Object 20, [Num 5]), (12, Object 20, [Num 5])] \<and>
         truthy (run_init w' (Func 11)) \<and> truthy (run_init w' (Func 12)) \<and>
         console w' = [])"
proof -
  have d: "0 < ex_depth" by (simp add: ex_depth_def)
  have u1: "returning_initializer ex_beh (Object 20) ex_group_b1 ex_world_b1 (Num 5) ''b''"
    by (simp add: returning_initializer_def ex_b1_eq get_prop_def ex_beh_def)
  have u2: "returning_initializer ex_beh (Object 20) ex_group_b1 ex_world_b1 (Num 5) ''1''"
    by (simp add: returning_initializer_def ex_b1_eq get_prop_def ex_beh_def)
  have u: "\<forall>k\<in>fst ` set (own (methods ex_group_b1)).
      returning_initializer ex_beh (Object 20) ex_group_b1 ex_world_b1 (Num 5) k"
    using u1 u2 by (simp add: ex_b1_eq)
  from run_invokes_each_once[OF d u] obtain w' where
    r: "run ex_depth ex_beh (Object 20) ex_group_b1 (Num 5) ex_world_b1 = (Return Undefined, w')"
    and c: "calls w' = calls ex_world_b1
        @ map (expected_call (Object 20) ex_group_b1 ex_world_b1 (Num 5))
            (pending ex_world_b1 ex_group_b1 [] (for_in_keys (methods ex_group_b1)))"
    and f: "\<forall>k\<in>fst ` set (own (methods ex_group_b1)).
        truthy (run_init w' (get_prop (methods ex_group_b1) k)) \<and>
        length (filter (\<lambda>c. fst c = func_ref (get_prop (methods ex_group_b1) k))
          (map (expected_call (Object 20) ex_group_b1 ex_world_b1 (Num 5))
            (pending ex_world_b1 ex_group_b1 [] (for_in_keys (methods ex_group_b1)))))
          = (if truthy (run_init ex_world_b1 (get_prop (methods ex_group_b1) k)) then 0 else 1)"
    and o: "console w' = console ex_world_b1"
    by blast
  have c': "calls w' = [(11, Object 20, [Num 5]), (12, Object 20, [Num 5])]"
    unfolding c
    by (simp add: for_in_keys_def ex_b1_eq ex_for_in_b1 expected_call_def func_ref_def
        receiver_def get_prop_def ex_world_def Let_def)
  have f1: "truthy (run_init w' (Func 11))" and f2: "truthy (run_init w' (Func 12))"
    using f by (simp_all add: ex_b1_eq get_prop_def)
  have o': "console w' = []"
    using o by (simp add: ex_b1_eq ex_world_def)
  from d u1 u2 r c' f1 f2 o' show ?thesis by blast
qed

subsection \<open>C3: the receiver of an initializer\<close>

text \<open>
  Claim C3 ties the receiver to the \<^verbatim>\<open>apiIsThis\<close> given when the name was registered
  and to the \<^verbatim>\<open>api\<close> of the group being non-null. The code keeps the flag
  \<^verbatim>\<open>_this_api\<close> on the function object and tests \<^verbatim>\<open>meth._this_api && this.api\<close>.
  First example: a group whose \<^verbatim>\<open>api\<close> is an object, \<^verbatim>\<open>add('a', f, true)\<close>, then
  \<^verbatim>\<open>add('b', f, false)\<close> with the same function; \<^verbatim>\<open>need('a')\<close> calls \<^verbatim>\<open>f\<close> on the
  group, not on the \<^verbatim>\<open>api\<close>. Second example: a group whose \<^verbatim>\<open>api\<close> is the number 0,
  which is not null, and \<^verbatim>\<open>add('a', f, true)\<close>; \<^verbatim>\<open>need('a')\<close> calls \<^verbatim>\<open>f\<close> on the
  group.
\<close>

theorem need_receiver_counterexample:
  "(let (r1, g1, w1) = add (Object 20) ex_group_api (Str ''a'') (Func 11) (Bool True) ex_world;
        (r2, g2, w2) = add (Object 20) g1 (Str ''b'') (Func 11) (Bool False) w1
    in r1 = Bool True \<and> r2 = Bool True \<and> api g2 = Object 21 \<and>
       calls (snd (need ex_depth ex_beh (Object 20) g2 (Str ''a'') (Num 5) w2))
         = [(11, Object 20, [Num 5])]) \<and>
   (let (r1, g1, w1) = add (Object 20) (InitGroup_constructor [] (Str ''init'') (Num 0))
                         (Str ''a'') (Func 11) (Bool True) ex_world
    in r1 = Bool True \<and> api g1 = Num 0 \<and> api g1 \<noteq> Null \<and>
       calls (snd (need ex_depth ex_beh (Object 20) g1 (Str ''a'') (Num 5) w1))
         = [(11, Object 20, [Num 5])])"
  by (simp add: add_def need_def Let_def ex_group_api_def InitGroup_constructor_def ex_world_def
      get_prop_def set_prop_def ex_depth_def ex_beh_def)

text \<open>
  Claim C3 as amended. A successful \<^verbatim>\<open>add(name, f, apiIsThis)\<close> stores \<^verbatim>\<open>f\<close> under the
  name and sets the two flags of the function object \<^verbatim>\<open>f\<close>: \<^verbatim>\<open>_run_init\<close> to
  \<^verbatim>\<open>false\<close> and \<^verbatim>\<open>_this_api\<close> to \<^verbatim>\<open>apiIsThis\<close>; so the flags are those of the
  latest successful registration of that function object, under any name and in any group.
  For a registered function that has not run, \<^verbatim>\<open>need(name, conf)\<close> calls it with
  \<^verbatim>\<open>conf\<close> as its only argument, on the \<^verbatim>\<open>api\<close> of the group when the
  \<^verbatim>\<open>_this_api\<close> flag of the function and the \<^verbatim>\<open>api\<close> are both truthy, and on the
  group otherwise. When the call returns, \<^verbatim>\<open>_run_init\<close> becomes \<^verbatim>\<open>true\<close> whatever
  was returned, and \<^verbatim>\<open>need\<close> returns that value. When the call throws, \<^verbatim>\<open>need\<close>
  throws and the flag is not set. For a function whose body lies outside the repository,
  and a call stack that is not exhausted, the call is exactly one new entry of the trace.
\<close>

theorem need_receiver_and_flag:
  "(add this' g0 nm' fn a w0 = (Bool True, g1, w1) \<longrightarrow>
      typeof fn = F \<and>
      get_prop (methods g1) (to_str nm') = fn \<and>
      run_init w1 fn = Bool False \<and>
      this_api w1 fn = (if a = Undefined then Bool False else a)) \<and>
   (typeof (get_prop (methods g) (to_str nm)) = F \<and>
    \<not> truthy (run_init w (get_prop (methods g) (to_str nm))) \<longrightarrow>
      need d beh this g nm conf w =
        (let meth = get_prop (methods g) (to_str nm);
             wantThis = (if truthy (this_api w meth) \<and> truthy (api g) then api g else this) in
         case invoke d beh meth wantThis [conf] w of
           (Throw e, w') \<Rightarrow> (Throw e, w')
         | (Return ret, w') \<Rightarrow> (Return ret, w'\<lparr>run_init := (run_init w')(meth := Bool True)\<rparr>))) \<and>
   (get_prop (methods g) (to_str nm) = Func f \<and> \<not> truthy (run_init w (Func f)) \<and> 0 < d \<longrightarrow>
      need d beh this g nm conf w =
        (let wantThis = (if truthy (this_api w (Func f)) \<and> truthy (api g) then api g else this) in
         case beh f wantThis [conf] of
           Return ret \<Rightarrow> (Return ret, w\<lparr>calls := calls w @ [(f, wantThis, [conf])],
                                         run_init := (run_init w)(Func f := Bool True)\<rparr>)
         | Throw e \<Rightarrow> (Throw e, w\<lparr>calls := calls w @ [(f, wantThis, [conf])]\<rparr>)))"
proof -
  have a: "add this' g0 nm' fn a w0 = (Bool True, g1, w1) \<Longrightarrow>
      typeof fn = F \<and>
      get_prop (methods g1) (to_str nm') = fn \<and>
      run_init w1 fn = Bool False \<and>
      this_api w1 fn = (if a = Undefined then Bool False else a)"
    by (auto simp: add_def Let_def get_prop_set_prop split: if_splits)
  have b: "typeof (get_prop (methods g) (to_str nm)) = F \<and>
    \<not> truthy (run_init w (get_prop (methods g) (to_str nm))) \<Longrightarrow>
      need d beh this g nm conf w =
        (let meth = get_prop (methods g) (to_str nm);
             wantThis = (if truthy (this_api w meth) \<and> truthy (api g) then api g else this) in
         case invoke d beh meth wantThis [conf] w of
           (Throw e, w') \<Rightarrow> (Throw e, w')
         | (Return ret, w') \<Rightarrow> (Return ret, w'\<lparr>run_init := (run_init w')(meth := Bool True)\<rparr>))"
    by (simp add: need_def Let_def)
  have c: "get_prop (methods g) (to_str nm) = Func f \<and> \<not> truthy (run_init w (Func f)) \<and> 0 < d \<Longrightarrow>
      need d beh this g nm conf w =
        (let wantThis = (if truthy (this_api w (Func f)) \<and> truthy (api g) then api g else this) in
         case beh f wantThis [conf] of
           Return ret \<Rightarrow> (Return ret, w\<lparr>calls := calls w @ [(f, wantThis, [conf])],
                                         run_init := (run_init w)(Func f := Bool True)\<rparr>)
         | Throw e \<Rightarrow> (Throw e, w\<lparr>calls := calls w @ [(f, wantThis, [conf])]\<rparr>))"
    using need_unrun_func[of g nm f w d beh this conf] by blast
  from a b c show ?thesis by blast
qed

theorem need_receiver_and_flag_witness:
  "add (Object 20) ex_group_api (Str ''a'') (Func 12) (Bool True) ex_world
     = (Bool True,
        ex_group_api\<lparr>methods := set_prop (methods ex_group_api) ''a'' (Func 12)\<rparr>,
        ex_world\<lparr>run_init := (run_init ex_world)(Func 12 := Bool False),
                 this_api := (this_api ex_world)(Func 12 := Bool True)\<rparr>) \<and>
   need ex_depth ex_beh (Object 20)
       (ex_group_api\<lparr>methods := set_prop (methods ex_group_api) ''a'' (Func 12)\<rparr>)
       (Str ''a'') (Num 5)
       (ex_world\<lparr>run_init := (run_init ex_world)(Func 12 := Bool False),
                 this_api := (this_api ex_world)(Func 12 := Bool True)\<rparr>)
     = (Return (Bool False),
        ex_world\<lparr>run_init := (run_init ex_world)(Func 12 := Bool True),
                 this_api := (this_api ex_world)(Func 12 := Bool True),
                 calls := [(12, Object 21, [Num 5])]\<rparr>)"
proof -
  let ?g = "ex_group_api\<lparr>methods := set_prop (methods ex_group_api) ''a'' (Func 12)\<rparr>"
  let ?w = "ex_world\<lparr>run_init := (run_init ex_world)(Func 12 := Bool False),
                 this_api := (this_api ex_world)(Func 12 := Bool True)\<rparr>"
  have a: "add (Object 20) ex_group_api (Str ''a'') (Func 12) (Bool True) ex_world
      = (Bool True, ?g, ?w)"
    by (simp add: add_def ex_group_api_def InitGroup_constructor_def get_prop_def)
  note t = need_receiver_and_flag[where this' = "Object 20" and ?g0.0 = ex_group_api
      and nm' = "Str ''a''" and fn = "Func 12" and a = "Bool True" and ?w0.0 = ex_world
      and ?g1.0 = ?g and ?w1.0 = ?w and g = ?g and nm = "Str ''a''" and f = 12 and w = ?w
      and d = ex_depth and beh = ex_beh and this = "Object 20" and conf = "Num 5"]
  have f: "get_prop (methods ?g) (to_str (Str ''a'')) = Func 12 \<and>
      run_init ?w (Func 12) = Bool False \<and> this_api ?w (Func 12) = Bool True"
    using t[THEN conjunct1] a by simp
  have d: "0 < ex_depth" by (simp add: ex_depth_def)
  have n: "need ex_depth ex_beh (Object 20) ?g (Str ''a'') (Num 5) ?w
      = (Return (Bool False),
         ex_world\<lparr>run_init := (run_init ex_world)(Func 12 := Bool True),
                 this_api := (this_api ex_world)(Func 12 := Bool True),
                 calls := [(12, Object 21, [Num 5])]\<rparr>)"
    using t[THEN conjunct2, THEN conjunct2] f d
    by (simp add: Let_def ex_beh_def ex_group_api_def InitGroup_constructor_def ex_world_def)
  from a n show ?thesis by blast
qed

subsection \<open>C4: a rejected registration changes nothing\<close>

text \<open>
  Claim C4. When the name is taken already (\<^verbatim>\<open>this.methods[name]\<close> is not
  \<^verbatim>\<open>undefined\<close>), or \<^verbatim>\<open>name\<close> is not a string, or \<^verbatim>\<open>method\<close> is not a function,
  \<^verbatim>\<open>add\<close> returns \<^verbatim>\<open>false\<close> without throwing, writes one line to the console and
  leaves the group, the flags of every function object and the trace as they were. So a
  later \<^verbatim>\<open>need\<close> or \<^verbatim>\<open>run\<close> has the outcome, the calls and the flags it would have
  had without the rejected \<^verbatim>\<open>add\<close>: the callable registered first is the one invoked.
\<close>

theorem add_rejected_keeps_registration:
  assumes "get_prop (methods g) (to_str nm) \<noteq> Undefined \<or> typeof nm \<noteq> S \<or> typeof method \<noteq> F"
  shows "\<exists>w'. add this g nm method apiIsThis w = (Bool False, g, w')
           \<and> console w' = console w @
                [[Str (if typeof nm = S \<and> typeof method = F
                       then ''cannot overwrite init method'' else ''invalid init method''),
                  nm, method, this]]
           \<and> eq_upto_console w' w
           \<and> fst (need d beh this g k conf w') = fst (need d beh this g k conf w)
           \<and> eq_upto_console (snd (need d beh this g k conf w')) (snd (need d beh this g k conf w))
           \<and> fst (run d beh this g conf w') = fst (run d beh this g conf w)
           \<and> eq_upto_console (snd (run d beh this g conf w')) (snd (run d beh this g conf w))"
proof -
  define msg where "msg = (if typeof nm = S \<and> typeof method = F
                       then ''cannot overwrite init method'' else ''invalid init method'')"
  let ?w = "console_error [Str msg, nm, method, this] w"
  have a: "add this g nm method apiIsThis w = (Bool False, g, ?w)"
    using assms by (auto simp: add_def Let_def msg_def)
  have c: "console ?w = console w @ [[Str msg, nm, method, this]]"
    by (simp add: console_error_def)
  have e: "eq_upto_console ?w w" by (rule eq_upto_console_error)
  show ?thesis
    using a c e need_upto_console[OF e, of d beh this g k conf]
      run_loop_upto_console[OF e, of d beh this g conf "for_in_keys (methods g)"]
    unfolding msg_def run_def by blast
qed


theorem add_rejected_keeps_registration_witness:
  "get_prop (methods ex_group_a) (to_str (Str ''a'')) \<noteq> Undefined \<and>
   (\<exists>w'. add (Object 20) ex_group_a (Str ''a'') (Func 12) Undefined ex_world_a
            = (Bool False, ex_group_a, w')
      \<and> console w' = [[Str ''cannot overwrite init method'', Str ''a'', Func 12, Object 20]]
      \<and> fst (need ex_depth ex_beh (Object 20) ex_group_a (Str ''a'') (Num 5) w') = Return (Num 7)
      \<and> calls (snd (need ex_depth ex_beh (Object 20) ex_group_a (Str ''a'') (Num 5) w'))
          = [(11, Object 20, [Num 5])])"
proof -
  have h: "get_prop (methods ex_group_a) (to_str (Str ''a'')) \<noteq> Undefined"
    by (simp add: ex_group_a_eq get_prop_def)
  from add_rejected_keeps_registration[of ex_group_a "Str ''a''" "Func 12" "Object 20" Undefined
      ex_world_a ex_depth ex_beh "Str ''a''" "Num 5", OF disjI1, OF h]
  obtain w' where a: "add (Object 20) ex_group_a (Str ''a'') (Func 12) Undefined ex_world_a
        = (Bool False, ex_group_a, w')"
    and c: "console w' = console ex_world_a @
        [[Str (if typeof (Str ''a'') = S \<and> typeof (Func 12) = F
               then ''cannot overwrite init method'' else ''invalid init method''),
          Str ''a'', Func 12, Object 20]]"
    and n1: "fst (need ex_depth ex_beh (Object 20) ex_group_a (Str ''a'') (Num 5) w')
        = fst (need ex_depth ex_beh (Object 20) ex_group_a (Str ''a'') (Num 5) ex_world_a)"
    and n2: "eq_upto_console (snd (need ex_depth ex_beh (Object 20) ex_group_a (Str ''a'') (Num 5) w'))
        (snd (need ex_depth ex_beh (Object 20) ex_group_a (Str ''a'') (Num 5) ex_world_a))"
    by blast
  have c': "console w' = [[Str ''cannot overwrite init method'', Str ''a'', Func 12, Object 20]]"
    using c by (simp add: ex_world_a_eq ex_world_def)
  have n1': "fst (need ex_depth ex_beh (Object 20) ex_group_a (Str ''a'') (Num 5) w') = Return (Num 7)"
    using n1 by (simp add: ex_need_a)
  have n2': "calls (snd (need ex_depth ex_beh (Object 20) ex_group_a (Str ''a'') (Num 5) w'))
      = [(11, Object 20, [Num 5])]"
    using n2 by (simp add: ex_need_a eq_upto_console_def)
  from h a c' n1' n2' show ?thesis by blast
qed

subsection \<open>C5: the constructor of an extension\<close>

text \<open>
  Claim C5. An argument that is not an instance of \<^verbatim>\<open>Model\<close> makes the constructor
  throw an \<^verbatim>\<open>Error\<close> and leaves the world as it was: no \<^verbatim>\<open>parent\<close> is stored and no
  hook is called. For an instance, the argument is stored as \<^verbatim>\<open>parent\<close>, also when
  the hook throws. Without a \<^verbatim>\<open>setup\<close> method nothing else happens. With one, the
  constructor calls it on the extension, with the instance as its only argument, in the
  world in which \<^verbatim>\<open>parent\<close> is stored already, and then returns the extension or
  passes on the exception of the hook; for a hook whose body lies outside the repository,
  and a call stack that is not exhausted, this is exactly one new entry of the trace.
\<close>

theorem Extension_constructor_checks_parent:
  "(\<not> instanceof_Model is_model a \<longrightarrow>
      Extension_constructor d beh is_model this a w
        = (Throw (Error ''Extension must be passed it's parent Model''), w)) \<and>
   (instanceof_Model is_model a \<longrightarrow>
      get_prop (heap (snd (Extension_constructor d beh is_model this a w)) this) ''parent'' = a \<and>
      (typeof (get_prop (heap w this) ''setup'') \<noteq> F \<longrightarrow>
         Extension_constructor d beh is_model this a w
           = (Return (Object this),
              w\<lparr>heap := (heap w)(this := set_prop (heap w this) ''parent'' a)\<rparr>)) \<and>
      (typeof (get_prop (heap w this) ''setup'') = F \<longrightarrow>
         Extension_constructor d beh is_model this a w
           = (case invoke d beh (get_prop (heap w this) ''setup'') (Object this) [a]
                     (w\<lparr>heap := (heap w)(this := set_prop (heap w this) ''parent'' a)\<rparr>) of
                (Throw e, w2) \<Rightarrow> (Throw e, w2)
              | (Return v, w2) \<Rightarrow> (Return (Object this), w2))) \<and>
      (\<forall>f. get_prop (heap w this) ''setup'' = Func f \<and> 0 < d \<longrightarrow>
         Extension_constructor d beh is_model this a w
           = (case beh f (Object this) [a] of
                Return v \<Rightarrow> Return (Object this)
              | Throw e \<Rightarrow> Throw e,
              w\<lparr>heap := (heap w)(this := set_prop (heap w this) ''parent'' a),
                calls := calls w @ [(f, Object this, [a])]\<rparr>)))"
proof (intro conjI impI allI)
  assume "\<not> instanceof_Model is_model a"
  then show "Extension_constructor d beh is_model this a w
        = (Throw (Error ''Extension must be passed it's parent Model''), w)"
    by (simp add: Extension_constructor_def)
next
  assume m: "instanceof_Model is_model a"
  let ?w1 = "w\<lparr>heap := (heap w)(this := set_prop (heap w this) ''parent'' a)\<rparr>"
  let ?s = "get_prop (heap ?w1 this) ''setup''"
  obtain out w2 where i: "invoke d beh ?s (Object this) [a] ?w1 = (out, w2)"
    by (cases "invoke d beh ?s (Object this) [a] ?w1")
  from invoke_frame[OF i] have "heap w2 = heap ?w1" by simp
  with m i show "get_prop (heap (snd (Extension_constructor d beh is_model this a w)) this) ''parent'' = a"
    by (auto simp: Extension_constructor_def Let_def get_prop_set_prop split: outcome.splits)
next
  assume "instanceof_Model is_model a" "typeof (get_prop (heap w this) ''setup'') \<noteq> F"
  then show "Extension_constructor d beh is_model this a w
           = (Return (Object this),
              w\<lparr>heap := (heap w)(this := set_prop (heap w this) ''parent'' a)\<rparr>)"
    by (simp add: Extension_constructor_def Let_def get_prop_set_prop)
next
  assume "instanceof_Model is_model a" "typeof (get_prop (heap w this) ''setup'') = F"
  then show "Extension_constructor d beh is_model this a w
           = (case invoke d beh (get_prop (heap w this) ''setup'') (Object this) [a]
                     (w\<lparr>heap := (heap w)(this := set_prop (heap w this) ''parent'' a)\<rparr>) of
                (Throw e, w2) \<Rightarrow> (Throw e, w2)
              | (Return v, w2) \<Rightarrow> (Return (Object this), w2))"
    by (simp add: Extension_constructor_def Let_def get_prop_set_prop)
next
  fix f
  assume "instanceof_Model is_model a" "get_prop (heap w this) ''setup'' = Func f \<and> 0 < d"
  then show "Extension_constructor d beh is_model this a w
           = (case beh f (Object this) [a] of
                Return v \<Rightarrow> Return (Object this)
              | Throw e \<Rightarrow> Throw e,
              w\<lparr>heap := (heap w)(this := set_prop (heap w this) ''parent'' a),
                calls := calls w @ [(f, Object this, [a])]\<rparr>)"
    by (cases d) (auto simp: Extension_constructor_def Let_def get_prop_set_prop split: outcome.splits)
qed


theorem Extension_constructor_checks_parent_witness:
  "\<not> instanceof_Model ex_is_model (Object 41) \<and>
   Extension_constructor ex_depth ex_beh ex_is_model 30 (Object 41) ex_heap_world
     = (Throw (Error ''Extension must be passed it's parent Model''), ex_heap_world) \<and>
   instanceof_Model ex_is_model (Object 40) \<and>
   get_prop (heap ex_constructed 30) ''parent'' = Object 40 \<and>
   get_prop (heap ex_heap_world 30) ''setup'' = Func 14 \<and>
   Extension_constructor ex_depth ex_beh ex_is_model 30 (Object 40) ex_heap_world
     = (Return (Object 30),
        ex_heap_world\<lparr>heap := (heap ex_heap_world)
                              (30 := set_prop (heap ex_heap_world 30) ''parent'' (Object 40)),
          calls := calls ex_heap_world @ [(14, Object 30, [Object 40])]\<rparr>)"
proof -
  have n: "\<not> instanceof_Model ex_is_model (Object 41)"
    by (simp add: instanceof_Model_def ex_is_model_def)
  have m: "instanceof_Model ex_is_model (Object 40)"
    by (simp add: instanceof_Model_def ex_is_model_def)
  have s: "get_prop (heap ex_heap_world 30) ''setup'' = Func 14"
    by (simp add: ex_heap_world_def ex_ext_def get_prop_def)
  have d: "0 < ex_depth" by (simp add: ex_depth_def)
  have b: "ex_beh 14 (Object 30) [Object 40] = Return Undefined"
    by (simp add: ex_beh_def)
  note t1 = Extension_constructor_checks_parent
    [of ex_is_model "Object 41" ex_depth ex_beh 30 ex_heap_world]
  note t2 = Extension_constructor_checks_parent
    [of ex_is_model "Object 40" ex_depth ex_beh 30 ex_heap_world]
  have c1: "Extension_constructor ex_depth ex_beh ex_is_model 30 (Object 41) ex_heap_world
     = (Throw (Error ''Extension must be passed it's parent Model''), ex_heap_world)"
    using t1 n by blast
  have c2: "get_prop (heap ex_constructed 30) ''parent'' = Object 40"
    using t2 m unfolding ex_constructed_def by blast
  have c3: "Extension_constructor ex_depth ex_beh ex_is_model 30 (Object 40) ex_heap_world
     = (case ex_beh 14 (Object 30) [Object 40] of
          Return v \<Rightarrow> Return (Object 30)
        | Throw e \<Rightarrow> Throw e,
        ex_heap_world\<lparr>heap := (heap ex_heap_world)
                              (30 := set_prop (heap ex_heap_world 30) ''parent'' (Object 40)),
          calls := calls ex_heap_world @ [(14, Object 30, [Object 40])]\<rparr>)"
    using t2 m s d by blast
  show ?thesis
    using n c1 m c2 s c3 unfolding b by simp
qed

subsection \<open>C6: the two errors of addHandledMethod\<close>

text \<open>
  Claim C6 says that \<^verbatim>\<open>addHandledMethod\<close> fails when \<^verbatim>\<open>parent[destName]\<close> already
  exists and \<^verbatim>\<open>canReplace\<close> is falsy, and then leaves the existing property as it is;
  the comment above the method says the same (an error is thrown if a property or method
  already exists). The code tests \<^verbatim>\<open>this.parent[destName] === undefined\<close> instead. In
  the example the model has the own property \<^verbatim>\<open>undef\<close>, whose value is
  \<^verbatim>\<open>undefined\<close>: the property exists, \<^verbatim>\<open>canReplace\<close> is omitted, and yet the call
  returns and overwrites the property with the forwarding closure.
\<close>

theorem addHandledMethod_overwrites_undefined_property:
  "map_of (own (heap ex_constructed 40)) ''undef'' = Some Undefined \<and>
   typeof (get_prop (heap ex_constructed 30) ''foo'') = F \<and>
   fst (addHandledMethod 30 (Str ''foo'') (Str ''undef'') Undefined Undefined ex_constructed)
     = Return Undefined \<and>
   map_of (own (heap (snd (addHandledMethod 30 (Str ''foo'') (Str ''undef'') Undefined Undefined
       ex_constructed)) 40)) ''undef'' = Some (Fwd 30 (Str ''foo'') (Object 30))"
  by (simp add: addHandledMethod_def Let_def ex_constructed_heap ex_ext_def ex_model_def
      get_prop_def set_prop_def)

text \<open>
  Apart from an existing property that holds \<^verbatim>\<open>undefined\<close>, the code does what the
  claim says. With \<^verbatim>\<open>this.parent\<close> the object that the constructor stored,
  \<^verbatim>\<open>addHandledMethod\<close> throws, and leaves the world unchanged, when \<^verbatim>\<open>this[srcName]\<close>
  is not a function (the message starts with \<^verbatim>\<open>srcName\<close>), and when it is one,
  \<^verbatim>\<open>canReplace\<close> is falsy and the value read from \<^verbatim>\<open>parent[destName]\<close> is not
  \<^verbatim>\<open>undefined\<close> (the message starts with \<^verbatim>\<open>destName\<close>); it returns when the source
  is a function and \<^verbatim>\<open>canReplace\<close> is truthy or that value is \<^verbatim>\<open>undefined\<close>. Here
  \<^verbatim>\<open>destName\<close> is \<^verbatim>\<open>srcName\<close> when the argument is falsy.
\<close>

lemma addHandledMethod_errors:
  assumes "get_prop (heap w this) ''parent'' = Object p"
  shows "(typeof (get_prop (heap w this) (to_str srcName)) \<noteq> F \<longrightarrow>
           addHandledMethod this srcName destName modelIsThis canReplace w
             = (Throw (Error (to_str srcName @ '' method not found in the Extension'')), w)) \<and>
         (typeof (get_prop (heap w this) (to_str srcName)) = F \<and> \<not> truthy canReplace \<and>
          get_prop (heap w p) (to_str (if truthy destName then destName else srcName)) \<noteq> Undefined \<longrightarrow>
           addHandledMethod this srcName destName modelIsThis canReplace w
             = (Throw (Error (to_str (if truthy destName then destName else srcName)
                               @ '' was already defined in the Model'')), w)) \<and>
         (typeof (get_prop (heap w this) (to_str srcName)) = F \<and>
          (truthy canReplace \<or>
           get_prop (heap w p) (to_str (if truthy destName then destName else srcName)) = Undefined) \<longrightarrow>
           fst (addHandledMethod this srcName destName modelIsThis canReplace w) = Return Undefined)"
  using assms by (simp add: addHandledMethod_def Let_def)


lemma addHandledMethod_errors_example:
  "get_prop (heap ex_constructed 30) ''parent'' = Object 40 \<and>
   addHandledMethod 30 (Str ''nope'') Undefined Undefined Undefined ex_constructed
     = (Throw (Error ''nope method not found in the Extension''), ex_constructed) \<and>
   addHandledMethod 30 (Str ''foo'') (Str ''taken'') Undefined Undefined ex_constructed
     = (Throw (Error ''taken was already defined in the Model''), ex_constructed) \<and>
   fst (addHandledMethod 30 (Str ''foo'') (Str ''taken'') Undefined (Bool True) ex_constructed)
     = Return Undefined \<and>
   fst (addHandledMethod 30 (Str ''foo'') Undefined Undefined Undefined ex_constructed)
     = Return Undefined"
proof -
  have p: "get_prop (heap ex_constructed 30) ''parent'' = Object 40"
    by (simp add: ex_constructed_heap get_prop_def)
  have f: "typeof (get_prop (heap ex_constructed 30) (to_str (Str ''foo''))) = F"
    by (simp add: ex_constructed_heap ex_ext_def get_prop_def)
  have n: "typeof (get_prop (heap ex_constructed 30) (to_str (Str ''nope''))) \<noteq> F"
    by (simp add: ex_constructed_heap ex_ext_def get_prop_def)
  have t: "get_prop (heap ex_constructed 40) ''taken'' \<noteq> Undefined"
    by (simp add: ex_constructed_heap ex_model_def get_prop_def)
  have u: "get_prop (heap ex_constructed 40) ''foo'' = Undefined"
    by (simp add: ex_constructed_heap ex_model_def get_prop_def)
  have a: "addHandledMethod 30 (Str ''nope'') Undefined Undefined Undefined ex_constructed
     = (Throw (Error ''nope method not found in the Extension''), ex_constructed)"
    using addHandledMethod_errors[OF p, where srcName = "Str ''nope''" and destName = "Undefined" and modelIsThis = "Undefined" and canReplace = "Undefined"] n
    by simp
  have b: "addHandledMethod 30 (Str ''foo'') (Str ''taken'') Undefined Undefined ex_constructed
     = (Throw (Error ''taken was already defined in the Model''), ex_constructed)"
    using addHandledMethod_errors[OF p, where srcName = "Str ''foo''" and destName = "Str ''taken''" and modelIsThis = "Undefined" and canReplace = "Undefined"] f t
    by simp
  have c: "fst (addHandledMethod 30 (Str ''foo'') (Str ''taken'') Undefined (Bool True)
      ex_constructed) = Return Undefined"
    using addHandledMethod_errors[OF p, where srcName = "Str ''foo''" and destName = "Str ''taken''" and modelIsThis = "Undefined" and canReplace = "Bool True"] f
    by simp
  have d: "fst (addHandledMethod 30 (Str ''foo'') Undefined Undefined Undefined ex_constructed)
     = Return Undefined"
    using addHandledMethod_errors[OF p, where srcName = "Str ''foo''" and destName = "Undefined" and modelIsThis = "Undefined" and canReplace = "Undefined"] f u
    by simp
  from p a b c d show ?thesis by blast
qed

subsection \<open>C7: what the forwarding closure does\<close>

text \<open>
  Claim C7 says that calling the installed \<^verbatim>\<open>parent[destName]\<close> gives the same result
  as calling the method of the extension. The closure has no \<^verbatim>\<open>return\<close> statement: in
  the example \<^verbatim>\<open>foo\<close> returns 7 when called on the extension, and the forwarder
  installed by \<^verbatim>\<open>addHandledMethod('foo')\<close> returns \<^verbatim>\<open>undefined\<close> for the same
  arguments.
\<close>

theorem forwarder_result_counterexample:
  "addHandledMethod 30 (Str ''foo'') Undefined Undefined Undefined ex_constructed
     = (Return Undefined, ex_installed) \<and>
   fst (invoke ex_depth ex_beh (get_prop (heap ex_installed 30) ''foo'') (Object 30)
          [Num 1, Num 2] ex_installed) = Return (Num 7) \<and>
   fst (invoke ex_depth ex_beh (get_prop (heap ex_installed 40) ''foo'') (Object 40)
          [Num 1, Num 2] ex_installed) = Return Undefined"
  by (simp add: ex_installed_eq ex_installed_heap ex_ext_def ex_model_def get_prop_def
      ex_depth_def ex_beh_def)

text \<open>
  Claim C7 as amended. After \<^verbatim>\<open>addHandledMethod\<close> has returned, \<^verbatim>\<open>parent[destName]\<close>
  is a function, and calling it with any receiver and any arguments, in any later world,
  has the effects of calling the method that \<^verbatim>\<open>ext[srcName]\<close> then holds with the same
  arguments and with the receiver chosen at installation (the parent when
  \<^verbatim>\<open>modelIsThis\<close> is truthy, the extension otherwise); it throws what that call throws;
  and when that call returns, whatever it returns, the forwarder returns \<^verbatim>\<open>undefined\<close>.
  The forwarder takes one more frame of the call stack than the direct call.
\<close>

theorem forwarder_forwards_call:
  assumes "addHandledMethod this srcName destName modelIsThis canReplace w = (Return r, w1)"
    and "get_prop (heap w this) ''parent'' = Object p"
    and "fwd = get_prop (heap w1 p) (to_str (if truthy destName then destName else srcName))"
    and "applyThis = (if truthy modelIsThis then Object p else Object this)"
  shows "typeof fwd = F \<and>
         (\<forall>d recv args w2.
            snd (invoke (Suc d) beh fwd recv args w2)
              = snd (invoke d beh (get_prop (heap w2 this) (to_str srcName)) applyThis args w2) \<and>
            (\<forall>e. fst (invoke d beh (get_prop (heap w2 this) (to_str srcName)) applyThis args w2) = Throw e
                 \<longrightarrow> fst (invoke (Suc d) beh fwd recv args w2) = Throw e) \<and>
            (\<forall>v. fst (invoke d beh (get_prop (heap w2 this) (to_str srcName)) applyThis args w2) = Return v
                 \<longrightarrow> fst (invoke (Suc d) beh fwd recv args w2) = Return Undefined))"
proof -
  have f: "fwd = Fwd this srcName applyThis"
    using assms by (auto simp: addHandledMethod_def Let_def get_prop_set_prop split: if_splits)
  show ?thesis
    unfolding f by (auto split: prod.splits outcome.splits)
qed


theorem forwarder_forwards_call_witness:
  "addHandledMethod 30 (Str ''foo'') Undefined Undefined Undefined ex_constructed
     = (Return Undefined, ex_installed) \<and>
   get_prop (heap ex_constructed 30) ''parent'' = Object 40 \<and>
   typeof (get_prop (heap ex_installed 40) ''foo'') = F \<and>
   snd (invoke (Suc (Suc 0)) ex_beh (get_prop (heap ex_installed 40) ''foo'') (Object 40)
          [Num 1, Num 2] ex_installed)
     = snd (invoke (Suc 0) ex_beh (get_prop (heap ex_installed 30) ''foo'') (Object 30)
          [Num 1, Num 2] ex_installed) \<and>
   calls (snd (invoke (Suc (Suc 0)) ex_beh (get_prop (heap ex_installed 40) ''foo'') (Object 40)
          [Num 1, Num 2] ex_installed))
     = [(14, Object 30, [Object 40]), (11, Object 30, [Num 1, Num 2])] \<and>
   fst (invoke (Suc (Suc 0)) ex_beh (get_prop (heap ex_installed 40) ''foo'') (Object 40)
          [Num 1, Num 2] ex_installed) = Return Undefined"
proof -
  have p: "get_prop (heap ex_constructed 30) ''parent'' = Object 40"
    by (simp add: ex_constructed_heap get_prop_def)
  have k: "get_prop (heap ex_installed 40) ''foo''
      = get_prop (heap ex_installed 40)
          (to_str (if truthy Undefined then Undefined else Str ''foo''))"
    by simp
  have a: "Object 30 = (if truthy Undefined then Object 40 else Object 30)"
    by simp
  note t = forwarder_forwards_call[OF ex_installed_eq p k a, of ex_beh]
  have d: "fst (invoke (Suc 0) ex_beh (get_prop (heap ex_installed 30) (to_str (Str ''foo'')))
      (Object 30) [Num 1, Num 2] ex_installed) = Return (Num 7)"
    by (simp add: ex_installed_heap ex_ext_def get_prop_def ex_beh_def)
  have c: "calls (snd (invoke (Suc 0) ex_beh (get_prop (heap ex_installed 30) ''foo'')
      (Object 30) [Num 1, Num 2] ex_installed))
      = [(14, Object 30, [Object 40]), (11, Object 30, [Num 1, Num 2])]"
    by (simp add: ex_installed_heap ex_ext_def get_prop_def ex_installed_def addHandledMethod_def
        Let_def ex_constructed_heap ex_model_def ex_constructed_eq ex_heap_world_def ex_world_def)
  have t1: "typeof (get_prop (heap ex_installed 40) ''foo'') = F"
    using t by blast
  have t2: "snd (invoke (Suc (Suc 0)) ex_beh (get_prop (heap ex_installed 40) ''foo'') (Object 40)
          [Num 1, Num 2] ex_installed)
     = snd (invoke (Suc 0) ex_beh (get_prop (heap ex_installed 30) ''foo'') (Object 30)
          [Num 1, Num 2] ex_installed)"
    using t[THEN conjunct2, rule_format, of "Suc 0" "Object 40" "[Num 1, Num 2]" ex_installed]
    by simp
  have t3: "fst (invoke (Suc (Suc 0)) ex_beh (get_prop (heap ex_installed 40) ''foo'') (Object 40)
          [Num 1, Num 2] ex_installed) = Return Undefined"
    using t[THEN conjunct2, rule_format, of "Suc 0" "Object 40" "[Num 1, Num 2]" ex_installed] d
    by simp
  show ?thesis
    using ex_installed_eq p t1 t2 t3 c by simp
qed

subsection \<open>C8: the bulk helper addHandledMethods\<close>

text \<open>
  Claim C8 says that every argument that is not an object makes \<^verbatim>\<open>addHandledMethods\<close>
  write an error to the console, and the \<^verbatim>\<open>else\<close> branch of the code reports a
  \<^verbatim>\<open>Non-object\<close>. The test that guards it is \<^verbatim>\<open>typeof methodsToAdd === 'object'\<close>,
  which \<^verbatim>\<open>null\<close> passes: for \<^verbatim>\<open>null\<close> the call returns with nothing registered and
  nothing written to the console.
\<close>

theorem addHandledMethods_null_not_reported:
  "addHandledMethods 30 Null ex_constructed = (Return Undefined, ex_constructed) \<and>
   console ex_constructed = []"
  by (simp add: addHandledMethods_def enum_keys_def ex_constructed_eq ex_heap_world_def
      ex_world_def)

text \<open>
  For the other arguments the code does what the claim says. For an array,
  \<^verbatim>\<open>addHandledMethods\<close> is the sequence of the calls \<^verbatim>\<open>addHandledMethod(name)\<close>, one
  for each entry in order. For an object literal whose values are strings, booleans and
  object literals, it is the sequence of the calls that the documented reading gives, one
  for each key in \<^verbatim>\<open>for ... in\<close> order: a string is passed as \<^verbatim>\<open>destName\<close>, a
  boolean as \<^verbatim>\<open>modelIsThis\<close>, and the fields \<^verbatim>\<open>destName\<close>, \<^verbatim>\<open>modelIsThis\<close> and
  \<^verbatim>\<open>canReplace\<close> of an object literal as the parameters of these names. For an
  argument whose \<^verbatim>\<open>typeof\<close> is not \<^verbatim>\<open>'object'\<close> (\<^verbatim>\<open>undefined\<close>, a boolean, a
  number, a string, a function), it writes one error to the console and changes nothing
  else.
\<close>

lemma addHandledMethods_dispatch:
  "addHandledMethods this (Arr names) w
     = in_sequence (map (\<lambda>n. addHandledMethod this n Undefined Undefined Undefined) names) w \<and>
   ((\<forall>v\<in>snd ` set ps. is_spec v) \<longrightarrow>
      addHandledMethods this (Rec ps) w
        = in_sequence (map (\<lambda>k. spec_call this k (lookup ps k)) (for_in_order (map fst ps))) w) \<and>
   (typeof v \<noteq> O_type \<longrightarrow>
      addHandledMethods this v w
        = (Return Undefined,
           console_error [Str ''Non-object sent to addHandledMethods()'', v] w))"
proof -
  have a: "addHandledMethods this (Arr names) w
     = in_sequence (map (\<lambda>n. addHandledMethod this n Undefined Undefined Undefined) names) w"
    by (simp add: addHandledMethods_def array_loop_in_sequence)
  have b: "addHandledMethods this (Rec ps) w
        = in_sequence (map (\<lambda>k. spec_call this k (lookup ps k)) (for_in_order (map fst ps))) w"
    if h: "\<forall>v\<in>snd ` set ps. is_spec v"
  proof -
    have "\<forall>k\<in>set (for_in_order (map fst ps)). is_spec (lookup ps k)"
    proof
      fix k assume "k \<in> set (for_in_order (map fst ps))"
      then have "k \<in> fst ` set ps" by (simp add: set_for_in_order)
      then obtain x where "map_of ps k = Some x" 
        by (metis domD dom_map_of_conv_image_fst)
      moreover from this have "x \<in> snd ` set ps"
        by (metis map_of_SomeD image_eqI snd_conv)
      ultimately show "is_spec (lookup ps k)" using h by (auto simp: lookup_def)
    qed
    from object_loop_in_sequence[OF this] show ?thesis
      by (simp add: addHandledMethods_def enum_keys_def)
  qed
  have c: "typeof v \<noteq> O_type \<Longrightarrow> addHandledMethods this v w
        = (Return Undefined,
           console_error [Str ''Non-object sent to addHandledMethods()'', v] w)"
    by (simp add: addHandledMethods_def)
  from a b c show ?thesis by blast
qed

lemma addHandledMethods_dispatch_example:
  "is_spec (Str ''x'') \<and> is_spec (Bool True) \<and>
   is_spec (Rec [(''destName'', Str ''y''), (''modelIsThis'', Bool True),
                 (''canReplace'', Bool True)]) \<and>
   fst (addHandledMethods 30 ex_bulk ex_constructed) = Return Undefined \<and>
   own (heap (snd (addHandledMethods 30 ex_bulk ex_constructed)) 40)
     = [(''taken'', Num 3), (''undef'', Undefined),
        (''x'', Fwd 30 (Str ''foo'') (Object 30)),
        (''bar'', Fwd 30 (Str ''bar'') (Object 40)),
        (''y'', Fwd 30 (Str ''boom'') (Object 40))] \<and>
   own (heap (snd (addHandledMethods 30 (Arr [Str ''foo'', Str ''bar'']) ex_constructed)) 40)
     = [(''taken'', Num 3), (''undef'', Undefined),
        (''foo'', Fwd 30 (Str ''foo'') (Object 30)),
        (''bar'', Fwd 30 (Str ''bar'') (Object 30))] \<and>
   typeof (Num 5) \<noteq> O_type \<and>
   addHandledMethods 30 (Num 5) ex_constructed
     = (Return Undefined,
        console_error [Str ''Non-object sent to addHandledMethods()'', Num 5] ex_constructed)"
proof -
  let ?opts = "[(''destName'', Str ''y''), (''modelIsThis'', Bool True),
                 (''canReplace'', Bool True)]"
  let ?ps = "[(''foo'', Str ''x''), (''bar'', Bool True), (''boom'', Rec ?opts)]"
  have s: "is_spec (Str ''x'')" "is_spec (Bool True)" "is_spec (Rec ?opts)"
    by (simp_all add: is_spec_def)
  then have h: "\<forall>v\<in>snd ` set ?ps. is_spec v" by simp
  have o: "for_in_order (map fst ?ps) = [''foo'', ''bar'', ''boom'']"
    by (simp add: for_in_order_def array_index_def digit_val_def)
  note t1 = addHandledMethods_dispatch[of 30 "[Str ''foo'', Str ''bar'']" ex_constructed ?ps "Num 5"]
  have b: "addHandledMethods 30 ex_bulk ex_constructed
      = in_sequence (map (\<lambda>k. spec_call 30 k (lookup ?ps k)) [''foo'', ''bar'', ''boom''])
          ex_constructed"
    using t1 h unfolding ex_bulk_def o by blast
  have a: "addHandledMethods 30 (Arr [Str ''foo'', Str ''bar'']) ex_constructed
      = in_sequence (map (\<lambda>n. addHandledMethod 30 n Undefined Undefined Undefined)
          [Str ''foo'', Str ''bar'']) ex_constructed"
    using t1 by blast
  have n: "typeof (Num 5) \<noteq> O_type" by simp
  have c: "addHandledMethods 30 (Num 5) ex_constructed
     = (Return Undefined,
        console_error [Str ''Non-object sent to addHandledMethods()'', Num 5] ex_constructed)"
    using t1 n by blast
  have b1: "fst (addHandledMethods 30 ex_bulk ex_constructed) = Return Undefined"
    unfolding b
    by (simp add: lookup_def addHandledMethod_def Let_def ex_constructed_heap ex_ext_def
        ex_model_def get_prop_def set_prop_def)
  have b2: "own (heap (snd (addHandledMethods 30 ex_bulk ex_constructed)) 40)
     = [(''taken'', Num 3), (''undef'', Undefined),
        (''x'', Fwd 30 (Str ''foo'') (Object 30)),
        (''bar'', Fwd 30 (Str ''bar'') (Object 40)),
        (''y'', Fwd 30 (Str ''boom'') (Object 40))]"
    unfolding b
    by (simp add: lookup_def addHandledMethod_def Let_def ex_constructed_heap ex_ext_def
        ex_model_def get_prop_def set_prop_def)
  have a2: "own (heap (snd (addHandledMethods 30 (Arr [Str ''foo'', Str ''bar''])
        ex_constructed)) 40)
     = [(''taken'', Num 3), (''undef'', Undefined),
        (''foo'', Fwd 30 (Str ''foo'') (Object 30)),
        (''bar'', Fwd 30 (Str ''bar'') (Object 30))]"
    unfolding a
    by (simp add: addHandledMethod_def Let_def ex_constructed_heap ex_ext_def
        ex_model_def get_prop_def set_prop_def)
  show ?thesis
    by (intro conjI) (fact s(1), fact s(2), fact s(3), fact b1, fact b2, fact a2, fact n, fact c)
qed

subsection \<open>C9: the forwarding closure returns undefined\<close>

text \<open>
  Claim C9. A forwarder installed by \<^verbatim>\<open>addHandledMethod\<close> never returns a value other
  than \<^verbatim>\<open>undefined\<close>, whatever the names, the receiver choice, the receiver, the
  arguments and the world it is called in. When the method of the extension is a function
  that returns a value, the method is called (the call is in the trace), the value is
  dropped and the forwarder returns \<^verbatim>\<open>undefined\<close>.
\<close>

theorem forwarder_returns_undefined:
  assumes "addHandledMethod this srcName destName modelIsThis canReplace w = (Return r, w1)"
    and "get_prop (heap w this) ''parent'' = Object p"
    and "fwd = get_prop (heap w1 p) (to_str (if truthy destName then destName else srcName))"
    and "applyThis = (if truthy modelIsThis then Object p else Object this)"
  shows "(\<forall>d recv args w2 v. fst (invoke d beh fwd recv args w2) = Return v \<longrightarrow> v = Undefined) \<and>
         (\<forall>d recv args w2 f v.
            get_prop (heap w2 this) (to_str srcName) = Func f \<and> beh f applyThis args = Return v \<longrightarrow>
            invoke (Suc (Suc d)) beh fwd recv args w2
              = (Return Undefined, w2\<lparr>calls := calls w2 @ [(f, applyThis, args)]\<rparr>))"
proof -
  have f: "fwd = Fwd this srcName applyThis"
    using assms by (auto simp: addHandledMethod_def Let_def get_prop_set_prop split: if_splits)
  have a: "fst (invoke d beh fwd recv args w2) = Return v \<Longrightarrow> v = Undefined" for d recv args w2 v
    unfolding f by (cases d) (auto split: prod.splits outcome.splits)
  have b: "get_prop (heap w2 this) (to_str srcName) = Func g \<and> beh g applyThis args = Return v \<Longrightarrow>
            invoke (Suc (Suc d)) beh fwd recv args w2
              = (Return Undefined, w2\<lparr>calls := calls w2 @ [(g, applyThis, args)]\<rparr>)" for d recv args w2 g v
    unfolding f by simp
  from a b show ?thesis by blast
qed


theorem forwarder_returns_undefined_witness:
  "addHandledMethod 30 (Str ''foo'') Undefined Undefined Undefined ex_constructed
     = (Return Undefined, ex_installed) \<and>
   get_prop (heap ex_constructed 30) ''parent'' = Object 40 \<and>
   get_prop (heap ex_installed 30) ''foo'' = Func 11 \<and>
   ex_beh 11 (Object 30) [Num 1] = Return (Num 7) \<and>
   invoke (Suc (Suc 0)) ex_beh (get_prop (heap ex_installed 40) ''foo'') (Object 40) [Num 1]
       ex_installed
     = (Return Undefined, ex_installed\<lparr>calls := calls ex_installed @ [(11, Object 30, [Num 1])]\<rparr>)"
proof -
  have p: "get_prop (heap ex_constructed 30) ''parent'' = Object 40"
    by (simp add: ex_constructed_heap get_prop_def)
  have k: "get_prop (heap ex_installed 40) ''foo''
      = get_prop (heap ex_installed 40)
          (to_str (if truthy Undefined then Undefined else Str ''foo''))"
    by simp
  have a: "Object 30 = (if truthy Undefined then Object 40 else Object 30)"
    by simp
  have m: "get_prop (heap ex_installed 30) ''foo'' = Func 11"
    by (simp add: ex_installed_heap ex_ext_def get_prop_def)
  have b: "ex_beh 11 (Object 30) [Num 1] = Return (Num 7)"
    by (simp add: ex_beh_def)
  note t = forwarder_returns_undefined[OF ex_installed_eq p k a, of ex_beh]
  have r: "invoke (Suc (Suc 0)) ex_beh (get_prop (heap ex_installed 40) ''foo'') (Object 40)
       [Num 1] ex_installed
     = (Return Undefined, ex_installed\<lparr>calls := calls ex_installed @ [(11, Object 30, [Num 1])]\<rparr>)"
    using t[THEN conjunct2, rule_format, of ex_installed 11 "[Num 1]" "Num 7" 0 "Object 40"] m b
    by simp
  from ex_installed_eq p m b r show ?thesis by blast
qed

subsection \<open>C10: the collision test compares with undefined\<close>

text \<open>
  Claim C10. Let \<^verbatim>\<open>this[srcName]\<close> be a function and \<^verbatim>\<open>canReplace\<close> falsy. When the
  value of \<^verbatim>\<open>parent[destName]\<close> is \<^verbatim>\<open>undefined\<close>, be it an own property that holds
  \<^verbatim>\<open>undefined\<close> or no property at all, the forwarding closure is installed and no error
  is raised. When the value is not \<^verbatim>\<open>undefined\<close>, be it an own property or one
  inherited from the prototype, the collision error is raised and the world is unchanged.
\<close>

theorem addHandledMethod_compares_with_undefined:
  assumes "get_prop (heap w this) ''parent'' = Object p"
    and "typeof (get_prop (heap w this) (to_str srcName)) = F"
    and "\<not> truthy canReplace"
    and "k = to_str (if truthy destName then destName else srcName)"
  shows "((map_of (own (heap w p)) k = Some Undefined
           \<or> map_of (own (heap w p)) k = None \<and> map_of (inherited (heap w p)) k = None
           \<or> get_prop (heap w p) k = Undefined) \<longrightarrow>
            addHandledMethod this srcName destName modelIsThis canReplace w
              = (Return Undefined,
                 w\<lparr>heap := (heap w)(p := set_prop (heap w p) k
                     (Fwd this srcName (if truthy modelIsThis then Object p else Object this)))\<rparr>)) \<and>
         (((\<exists>v. map_of (own (heap w p)) k = Some v \<and> v \<noteq> Undefined)
           \<or> (\<exists>v. map_of (own (heap w p)) k = None \<and> map_of (inherited (heap w p)) k = Some v \<and> v \<noteq> Undefined)
           \<or> get_prop (heap w p) k \<noteq> Undefined) \<longrightarrow>
            addHandledMethod this srcName destName modelIsThis canReplace w
              = (Throw (Error (k @ '' was already defined in the Model'')), w))"
proof -
  have a: "map_of (own (heap w p)) k = Some Undefined
           \<or> map_of (own (heap w p)) k = None \<and> map_of (inherited (heap w p)) k = None
           \<or> get_prop (heap w p) k = Undefined \<Longrightarrow> get_prop (heap w p) k = Undefined"
    by (auto simp: get_prop_def)
  have b: "(\<exists>v. map_of (own (heap w p)) k = Some v \<and> v \<noteq> Undefined)
           \<or> (\<exists>v. map_of (own (heap w p)) k = None \<and> map_of (inherited (heap w p)) k = Some v \<and> v \<noteq> Undefined)
           \<or> get_prop (heap w p) k \<noteq> Undefined \<Longrightarrow> get_prop (heap w p) k \<noteq> Undefined"
    by (auto simp: get_prop_def)
  have c1: "get_prop (heap w p) k = Undefined \<Longrightarrow>
      addHandledMethod this srcName destName modelIsThis canReplace w
              = (Return Undefined,
                 w\<lparr>heap := (heap w)(p := set_prop (heap w p) k
                     (Fwd this srcName (if truthy modelIsThis then Object p else Object this)))\<rparr>)"
    using assms by (simp add: addHandledMethod_def Let_def)
  have c2: "get_prop (heap w p) k \<noteq> Undefined \<Longrightarrow>
      addHandledMethod this srcName destName modelIsThis canReplace w
              = (Throw (Error (k @ '' was already defined in the Model'')), w)"
    using assms by (simp add: addHandledMethod_def Let_def)
  show ?thesis
    using a b c1 c2 by blast
qed



theorem addHandledMethod_compares_with_undefined_witness:
  "get_prop (heap ex_constructed 30) ''parent'' = Object 40 \<and>
   typeof (get_prop (heap ex_constructed 30) (to_str (Str ''foo''))) = F \<and>
   \<not> truthy Undefined \<and>
   map_of (own (heap ex_constructed 40)) ''undef'' = Some Undefined \<and>
   addHandledMethod 30 (Str ''foo'') (Str ''undef'') Undefined Undefined ex_constructed
     = (Return Undefined,
        ex_constructed\<lparr>heap := (heap ex_constructed)(40 := set_prop (heap ex_constructed 40)
           ''undef'' (Fwd 30 (Str ''foo'') (Object 30)))\<rparr>) \<and>
   map_of (own (heap ex_constructed 40)) ''render'' = None \<and>
   map_of (inherited (heap ex_constructed 40)) ''render'' = Some (Func 15) \<and>
   addHandledMethod 30 (Str ''foo'') (Str ''render'') Undefined Undefined ex_constructed
     = (Throw (Error ''render was already defined in the Model''), ex_constructed)"
proof -
  have p: "get_prop (heap ex_constructed 30) ''parent'' = Object 40"
    by (simp add: ex_constructed_heap get_prop_def)
  have f: "typeof (get_prop (heap ex_constructed 30) (to_str (Str ''foo''))) = F"
    by (simp add: ex_constructed_heap ex_ext_def get_prop_def)
  have c: "\<not> truthy Undefined" by simp
  have u: "map_of (own (heap ex_constructed 40)) ''undef'' = Some Undefined"
    by (simp add: ex_constructed_heap ex_model_def)
  have r1: "map_of (own (heap ex_constructed 40)) ''render'' = None"
    by (simp add: ex_constructed_heap ex_model_def)
  have r2: "map_of (inherited (heap ex_constructed 40)) ''render'' = Some (Func 15)"
    by (simp add: ex_constructed_heap ex_model_def)
  have k1: "''undef'' = to_str (if truthy (Str ''undef'') then Str ''undef'' else Str ''foo'')"
    by simp
  have k2: "''render'' = to_str (if truthy (Str ''render'') then Str ''render'' else Str ''foo'')"
    by simp
  have a: "addHandledMethod 30 (Str ''foo'') (Str ''undef'') Undefined Undefined ex_constructed
     = (Return Undefined,
        ex_constructed\<lparr>heap := (heap ex_constructed)(40 := set_prop (heap ex_constructed 40)
           ''undef'' (Fwd 30 (Str ''foo'') (Object 30)))\<rparr>)"
    using addHandledMethod_compares_with_undefined[OF p f c k1, where modelIsThis = Undefined] u by simp
  have b: "addHandledMethod 30 (Str ''foo'') (Str ''render'') Undefined Undefined ex_constructed
     = (Throw (Error ''render was already defined in the Model''), ex_constructed)"
    using addHandledMethod_compares_with_undefined[OF p f c k2, where modelIsThis = Undefined] r1 r2 by simp
  from p f c u a r1 r2 b show ?thesis by blast
qed


end
